theory Spec2Isabelle
  imports Complex_Main "HOL-Library.AList"
begin

section \<open>Common conventions\<close>

text \<open>
  The development embeds \<^verbatim>\<open>src/utils.py\<close> and the naming logic of
  \<^verbatim>\<open>generate_dirs.py\<close>. Python exceptions are values of \<open>error\<close>; a function that
  may raise returns \<open>error + 'a\<close> with \<open>Inl\<close> for the exception. Tensor entries are real
  numbers (exact arithmetic; the special values and rounding of floating point are not
  modelled), a vector is a list of entries and a two-dimensional tensor a list of rows.
\<close>

datatype error =
  ValueError | AttributeError | IndexError | TypeError | KeyError | RuntimeError
  | ModuleError nat

section \<open>Decimal rendering of integers\<close>

text \<open>Python's \<^verbatim>\<open>str(n)\<close> for an integer, as used by f-strings and by
  \<^verbatim>\<open>ModuleList\<close> keys.\<close>

definition digit_char :: "nat \<Rightarrow> char" where
  "digit_char d = ''0123456789'' ! d"

fun str_nat :: "nat \<Rightarrow> string" where
  "str_nat n = (if n < 10 then [digit_char n] else str_nat (n div 10) @ [digit_char (n mod 10)])"

definition str_int :: "int \<Rightarrow> string" where
  "str_int i = (if i < 0 then CHR ''-'' # str_nat (nat (- i)) else str_nat (nat i))"

section \<open>The direction-generation driver: layer choice and file names\<close>

text \<open>
  \<^verbatim>\<open>run(model_name, n = 1, layer_nb = None)\<close>. The optional layer index is an
  \<open>int option\<close>. Both uses of \<^verbatim>\<open>layer_nb\<close> go through Python truthiness
  (\<^verbatim>\<open>layer_nb or ...\<close>, \<^verbatim>\<open>... if layer_nb else ...\<close>): \<^verbatim>\<open>None\<close> and \<^verbatim>\<open>0\<close> are both
  false, every other integer is true.
\<close>

text \<open>\<^verbatim>\<open>layer_nb_ = layer_nb or len(model.transformer.h) // 2\<close>\<close>

definition layer_nb_used :: "int option \<Rightarrow> nat \<Rightarrow> int" where
  "layer_nb_used layer_nb n_layers =
     (case layer_nb of
        None \<Rightarrow> int (n_layers div 2)
      | Some k \<Rightarrow> if k \<noteq> 0 then k else int (n_layers div 2))"

text \<open>\<^verbatim>\<open>module_name = f"transformer.h.{layer_nb_}"\<close>\<close>

definition layer_module_name :: "int option \<Rightarrow> nat \<Rightarrow> string" where
  "layer_module_name layer_nb n_layers = ''transformer.h.'' @ str_int (layer_nb_used layer_nb n_layers)"

text \<open>
  \<^verbatim>\<open>file_name = f"L{layer_nb} - {m.__name__} - {i} - v0.pt" if layer_nb
              else f"{m.__name__} - {i} - v0.pt"\<close>,
  for the method name \<open>m_name\<close> and the round \<open>i\<close> of \<^verbatim>\<open>range(n)\<close>.
\<close>

definition file_name :: "int option \<Rightarrow> string \<Rightarrow> nat \<Rightarrow> string" where
  "file_name layer_nb m_name i =
     (case layer_nb of
        None \<Rightarrow> m_name @ '' - '' @ str_nat i @ '' - v0.pt''
      | Some k \<Rightarrow>
          if k \<noteq> 0 then ''L'' @ str_int k @ '' - '' @ m_name @ '' - '' @ str_nat i @ '' - v0.pt''
          else m_name @ '' - '' @ str_nat i @ '' - v0.pt'')"

text \<open>The prefix test of the claim: does the name start with \<^verbatim>\<open>L<layer_nb> - \<close>?\<close>

definition has_layer_prefix :: "int \<Rightarrow> string \<Rightarrow> bool" where
  "has_layer_prefix k name =
     (take (length (''L'' @ str_int k @ '' - '')) name = ''L'' @ str_int k @ '' - '')"

section \<open>Console word wrap\<close>

text \<open>
  \<^verbatim>\<open>s.split()\<close> with no argument: maximal runs of non-whitespace characters. The
  whitespace characters of the ASCII range are the codes 9 to 13, 28 to 31 and 32.
\<close>

definition is_space :: "char \<Rightarrow> bool" where
  "is_space c = (let n = of_char c :: nat in (9 \<le> n \<and> n \<le> 13) \<or> (28 \<le> n \<and> n \<le> 32))"

fun split_ws_aux :: "string \<Rightarrow> string \<Rightarrow> string list" where
  "split_ws_aux cur [] = (if cur = [] then [] else [cur])"
| "split_ws_aux cur (c # cs) =
     (if is_space c then (if cur = [] then split_ws_aux [] cs else cur # split_ws_aux [] cs)
      else split_ws_aux (cur @ [c]) cs)"

definition split_ws :: "string \<Rightarrow> string list" where
  "split_ws s = split_ws_aux [] s"

text \<open>\<^verbatim>\<open>" ".join(cl)\<close>\<close>

fun join_sp :: "string list \<Rightarrow> string" where
  "join_sp [] = []"
| "join_sp [w] = w"
| "join_sp (w # ws) = w @ '' '' @ join_sp ws"

text \<open>
  The loop of \<^verbatim>\<open>fancy_print\<close> over the words, with the current line \<open>cl\<close>, its counter
  \<open>lcl\<close> and the lines printed so far; the result is every line printed, in order. The
  counter adds \<^verbatim>\<open>len(w)\<close> only.
\<close>

fun fancy_loop :: "int \<Rightarrow> string list \<Rightarrow> string list \<Rightarrow> int \<Rightarrow> string list \<Rightarrow> string list" where
  "fancy_loop max_line_length [] cl lcl printed = printed @ [join_sp cl]"
| "fancy_loop max_line_length (w # ws) cl lcl printed =
     (if lcl + int (length w) > max_line_length
      then fancy_loop max_line_length ws [w] (int (length w)) (printed @ [join_sp cl])
      else fancy_loop max_line_length ws (cl @ [w]) (lcl + int (length w)) printed)"

definition fancy_print :: "string \<Rightarrow> int \<Rightarrow> string list" where
  "fancy_print s max_line_length = fancy_loop max_line_length (split_ws s) [] 0 []"

section \<open>Vectors and linear projection\<close>

type_synonym vec = "real list"

text \<open>The inner product over the hidden axis, \<^verbatim>\<open>einsum("h, h ->", xs, ys)\<close>.\<close>

definition dot :: "vec \<Rightarrow> vec \<Rightarrow> real" where
  "dot xs ys = sum_list (map2 (*) xs ys)"

definition vsub :: "vec \<Rightarrow> vec \<Rightarrow> vec" where
  "vsub xs ys = map2 (-) xs ys"

definition vadd :: "vec \<Rightarrow> vec \<Rightarrow> vec" where
  "vadd xs ys = map2 (+) xs ys"

definition vscale :: "real \<Rightarrow> vec \<Rightarrow> vec" where
  "vscale c xs = map ((*) c) xs"

text \<open>
  \<^verbatim>\<open>einsum("n, n h -> h", cs, dirs)\<close>: the sum over the rows of \<open>c\<^sub>n * d\<^sub>n\<close>, a vector of
  width \<open>h\<close> (the zero vector when there is no row).
\<close>

fun lincomb :: "nat \<Rightarrow> real list \<Rightarrow> vec list \<Rightarrow> vec" where
  "lincomb h (c # cs) (d # ds) = vadd (vscale c d) (lincomb h cs ds)"
| "lincomb h _ _ = replicate h 0"

text \<open>
  The contraction over \<^verbatim>\<open>h\<close> needs every input row to be as wide as every direction row;
  the tensor library raises a \<^verbatim>\<open>RuntimeError\<close> otherwise (broadcasting of an axis of
  size one is not modelled).
\<close>

definition same_width :: "vec list \<Rightarrow> vec list \<Rightarrow> bool" where
  "same_width X dirs = list_all (\<lambda>x. list_all (\<lambda>d. length d = length x) dirs) X"

text \<open>
  \<^verbatim>\<open>project(dir, dirs, strength = 1)\<close> on one row \<open>x\<close> of the batch:
  \<^verbatim>\<open>inner_products = einsum("n h, ...h -> ...n", dirs, dir)\<close>,
  \<^verbatim>\<open>new_dir = dir - strength * einsum("...n, n h -> ...h", inner_products, dirs)\<close>.
\<close>

definition project_row :: "vec list \<Rightarrow> real \<Rightarrow> vec \<Rightarrow> vec" where
  "project_row dirs strength x =
     (let inner_products = map (\<lambda>d. dot d x) dirs
      in vsub x (vscale strength (lincomb (length x) inner_products dirs)))"

definition project :: "vec list \<Rightarrow> vec list \<Rightarrow> real \<Rightarrow> error + vec list" where
  "project X dirs strength =
     (if same_width X dirs then Inr (map (project_row dirs strength) X) else Inl RuntimeError)"

text \<open>The precondition of the docstring: the rows of \<open>dirs\<close> are orthonormal.\<close>

definition orthonormal :: "vec list \<Rightarrow> bool" where
  "orthonormal dirs =
     (\<forall>i < length dirs. \<forall>j < length dirs. dot (dirs ! i) (dirs ! j) = (if i = j then 1 else 0))"

section \<open>Conical projection\<close>

text \<open>
  One step of the loop of \<^verbatim>\<open>project_cone\<close> on one row \<open>x\<close> of \<^verbatim>\<open>Xs[i]\<close>, for the direction
  \<open>d = dirs[-(i + 1)]\<close>:
  \<^verbatim>\<open>norms = sum(x ** 2) ** 0.5\<close>, \<^verbatim>\<open>cosines = einsum("...h, h -> ...", x, d) / norms\<close>, and
  \<^verbatim>\<open>x - d * norms * ((cosines - sqrt(1 - cosines ** 2) / tan(gamma)) * (abs(cosines) > cos(gamma)))\<close>.
\<close>

definition cone_row :: "vec \<Rightarrow> real \<Rightarrow> vec \<Rightarrow> vec" where
  "cone_row d gamma x =
     (let norm = sqrt (\<Sum>v \<leftarrow> x. v ^ 2);
          cosine = dot x d / norm;
          inside = (if \<bar>cosine\<bar> > cos gamma then 1 else 0)
      in vsub x (vscale (norm * ((cosine - sqrt (1 - cosine ^ 2) / tan gamma) * inside)) d))"

text \<open>
  \<^verbatim>\<open>project_cone(X, dirs, gamma)\<close>: the guard on \<open>gamma\<close> comes first and raises
  \<^verbatim>\<open>ValueError(gamma)\<close>; the loop then takes the direction rows last row first.
\<close>

definition project_cone :: "vec list \<Rightarrow> vec list \<Rightarrow> real \<Rightarrow> error + vec list" where
  "project_cone X dirs gamma =
     (if gamma \<le> 0 \<or> gamma \<ge> pi / 2 then Inl ValueError
      else if same_width X dirs
        then Inr (foldl (\<lambda>Xi d. map (cone_row d gamma) Xi) X (rev dirs))
        else Inl RuntimeError)"

section \<open>Activation datasets\<close>

text \<open>
  \<^verbatim>\<open>ActivationsDataset\<close> has the fields \<^verbatim>\<open>x_data\<close> (samples by hidden dimension) and
  \<^verbatim>\<open>y_data\<close> (one integer label per sample). Instances are objects: the store is the list
  of the objects allocated so far and a reference is an index into it, so that
  \<^verbatim>\<open>project\<close> (which builds a new instance) and \<^verbatim>\<open>project_\<close> (which assigns to
  \<^verbatim>\<open>self.x_data\<close>) differ in what they do to the store.
\<close>

record ActivationsDataset =
  x_data :: "vec list"
  y_data :: "int list"

text \<open>\<^verbatim>\<open>torch.linalg.norm(dir)\<close> and \<^verbatim>\<open>dir_norm = dir / torch.linalg.norm(dir)\<close>\<close>

definition linalg_norm :: "vec \<Rightarrow> real" where
  "linalg_norm d = sqrt (\<Sum>v \<leftarrow> d. v ^ 2)"

definition dir_norm :: "vec \<Rightarrow> vec" where
  "dir_norm d = map (\<lambda>v. v / linalg_norm d) d"

text \<open>
  \<^verbatim>\<open>ActivationsDataset.project(self, dir)\<close>: returns the reference of the new instance and
  the store that holds it.
\<close>

definition ds_project ::
  "ActivationsDataset list \<Rightarrow> nat \<Rightarrow> vec \<Rightarrow> error + (nat \<times> ActivationsDataset list)" where
  "ds_project store self dir =
     (case project (x_data (store ! self)) [dir_norm dir] 1 of
        Inl e \<Rightarrow> Inl e
      | Inr new_x_data \<Rightarrow>
          Inr (length store,
               store @ [\<lparr>x_data = new_x_data, y_data = y_data (store ! self)\<rparr>]))"

text \<open>\<^verbatim>\<open>ActivationsDataset.project_(self, dir)\<close>: assigns to the field of \<open>self\<close>.\<close>

definition ds_project_inplace ::
  "ActivationsDataset list \<Rightarrow> nat \<Rightarrow> vec \<Rightarrow> error + ActivationsDataset list" where
  "ds_project_inplace store self dir =
     (case project (x_data (store ! self)) [dir_norm dir] 1 of
        Inl e \<Rightarrow> Inl e
      | Inr new_x_data \<Rightarrow> Inr (store[self := (store ! self)\<lparr>x_data := new_x_data\<rparr>]))"

section \<open>Module trees and dotted paths\<close>

text \<open>
  An \<^verbatim>\<open>nn.Module\<close> is modelled by what the patching code reads and writes: its kind, the
  names of the attributes of the instance that are not submodules (parameters, buffers,
  plain values), and its ordered dictionary \<^verbatim>\<open>_modules\<close> of named children. A plain module
  carries a tag that stands for its identity and behaviour; a \<^verbatim>\<open>ModuleList\<close> is the kind
  that supports item assignment; a \<^verbatim>\<open>ProjectionWrapper\<close> holds its \<^verbatim>\<open>projection\<close> and its
  \<^verbatim>\<open>has_leftover\<close> flag, and its wrapped module is its child \<^verbatim>\<open>wrapped_module\<close>. The
  hierarchy is a tree: no module object is shared between two slots. Names defined by the
  class itself (methods) are not modelled.
\<close>

datatype 'p body = Plain nat | ModuleList | ProjectionWrapper 'p bool

datatype 'p module =
  Module (body: "'p body") (attrs: "string list") (submodules: "(string \<times> 'p module) list")

text \<open>\<^verbatim>\<open>hasattr(m, name)\<close>: an attribute of the instance or a registered child.\<close>

definition hasattr :: "'p module \<Rightarrow> string \<Rightarrow> bool" where
  "hasattr m name = (name \<in> set (attrs m) \<or> map_of (submodules m) name \<noteq> None)"

text \<open>
  \<^verbatim>\<open>setattr(m, name, value)\<close> for a module value, as \<^verbatim>\<open>nn.Module.__setattr__\<close> does it: the
  name is removed from the other attributes and bound in \<^verbatim>\<open>_modules\<close>, in place when it
  is bound already and at the end otherwise.
\<close>

definition setattr :: "'p module \<Rightarrow> string \<Rightarrow> 'p module \<Rightarrow> 'p module" where
  "setattr m name v = Module (body m) (removeAll name (attrs m)) (AList.update name v (submodules m))"

text \<open>
  \<^verbatim>\<open>m[idx] = value\<close>: only a \<^verbatim>\<open>ModuleList\<close> supports it (any other module raises
  \<^verbatim>\<open>TypeError\<close>); the index is checked against the length (\<^verbatim>\<open>IndexError\<close>), a negative
  index counts from the end, and the child named \<^verbatim>\<open>str(idx)\<close> is set.
\<close>

definition setitem :: "'p module \<Rightarrow> int \<Rightarrow> 'p module \<Rightarrow> error + 'p module" where
  "setitem m idx v =
     (case body m of
        ModuleList \<Rightarrow>
          (let n = int (length (submodules m)) in
           if - n \<le> idx \<and> idx < n
           then Inr (setattr m (str_int (if idx < 0 then idx + n else idx)) v)
           else Inl IndexError)
      | _ \<Rightarrow> Inl TypeError)"

text \<open>\<^verbatim>\<open>s.split(".")\<close> and \<^verbatim>\<open>".".join(ws)\<close>\<close>

fun split_dot :: "string \<Rightarrow> string list" where
  "split_dot [] = [[]]"
| "split_dot (c # cs) =
     (if c = CHR ''.'' then [] # split_dot cs
      else (c # hd (split_dot cs)) # tl (split_dot cs))"

fun join_dot :: "string list \<Rightarrow> string" where
  "join_dot [] = []"
| "join_dot [w] = w"
| "join_dot (w # ws) = w @ ''.'' @ join_dot ws"

text \<open>
  The loop of \<^verbatim>\<open>nn.Module.get_submodule\<close> over the atoms of the path: an atom that is
  not an attribute, or that names an attribute which is not a module, raises
  \<^verbatim>\<open>AttributeError\<close>.
\<close>

fun get_atoms :: "'p module \<Rightarrow> string list \<Rightarrow> error + 'p module" where
  "get_atoms m [] = Inr m"
| "get_atoms m (a # as) =
     (if \<not> hasattr m a then Inl AttributeError
      else if a \<in> set (attrs m) then Inl AttributeError
      else (case map_of (submodules m) a of
              None \<Rightarrow> Inl AttributeError
            | Some c \<Rightarrow> get_atoms c as))"

text \<open>\<^verbatim>\<open>model.get_submodule(target)\<close>; the empty target is the model itself.\<close>

definition get_submodule :: "'p module \<Rightarrow> string \<Rightarrow> error + 'p module" where
  "get_submodule model target =
     (if target = [] then Inr model else get_atoms model (split_dot target))"

text \<open>
  The module returned by \<^verbatim>\<open>get_submodule\<close> is a reference into the model, and the patching
  code mutates it. In the tree, this is the replacement of the module that the atoms reach
  by its mutated version.
\<close>

fun replace_atoms :: "'p module \<Rightarrow> string list \<Rightarrow> 'p module \<Rightarrow> 'p module" where
  "replace_atoms m [] new = new"
| "replace_atoms m (a # as) new =
     (case map_of (submodules m) a of
        None \<Rightarrow> m
      | Some c \<Rightarrow> Module (body m) (attrs m) (AList.update a (replace_atoms c as new) (submodules m)))"

definition replace_submodule :: "'p module \<Rightarrow> string \<Rightarrow> 'p module \<Rightarrow> 'p module" where
  "replace_submodule model target new =
     (if target = [] then new else replace_atoms model (split_dot target) new)"

section \<open>Reversible model patching\<close>

text \<open>
  \<^verbatim>\<open>ProjectionWrapper.__init__(self, wrapped_module, projection, has_leftover)\<close>. The
  assignment \<^verbatim>\<open>self.wrapped_module = wrapped_module.wrapped_module\<close> reads the attribute
  \<^verbatim>\<open>wrapped_module\<close> of its argument and raises \<^verbatim>\<open>AttributeError\<close> when the argument has
  none; a module value becomes the child \<^verbatim>\<open>wrapped_module\<close> of the wrapper, any other value
  a plain attribute.
\<close>

definition new_ProjectionWrapper :: "'p module \<Rightarrow> 'p \<Rightarrow> bool \<Rightarrow> error + 'p module" where
  "new_ProjectionWrapper wrapped_module projection has_leftover =
     (if ''wrapped_module'' \<in> set (attrs wrapped_module)
      then Inr (Module (ProjectionWrapper projection has_leftover)
                  [''wrapped_module'', ''projection'', ''has_leftover''] [])
      else (case map_of (submodules wrapped_module) ''wrapped_module'' of
              None \<Rightarrow> Inl AttributeError
            | Some inner \<Rightarrow>
                Inr (Module (ProjectionWrapper projection has_leftover)
                       [''projection'', ''has_leftover''] [(''wrapped_module'', inner)])))"

text \<open>
  The assignment shared by the two patching functions:
  \<^verbatim>\<open>setattr(parent, name, value) if hasattr(parent, name) else parent[int(name)] = value\<close>.
  Python's \<^verbatim>\<open>int\<close> on a string is the parameter \<open>int_of\<close> (\<open>None\<close> is its
  \<^verbatim>\<open>ValueError\<close>), evaluated before the item assignment.
\<close>

definition set_slot ::
  "(string \<Rightarrow> int option) \<Rightarrow> 'p module \<Rightarrow> string \<Rightarrow> 'p module \<Rightarrow> error + 'p module" where
  "set_slot int_of parent name value =
     (if hasattr parent name then Inr (setattr parent name value)
      else (case int_of name of
              None \<Rightarrow> Inl ValueError
            | Some idx \<Rightarrow> setitem parent idx value))"

text \<open>
  \<^verbatim>\<open>edit_model_inplace(model, old_module, module_name, projection, has_leftover)\<close>. The
  result is the exception raised, if any, and the model as the call leaves it.
\<close>

definition edit_model_inplace ::
  "(string \<Rightarrow> int option) \<Rightarrow> 'p module \<Rightarrow> 'p module \<Rightarrow> string \<Rightarrow> 'p \<Rightarrow> bool
     \<Rightarrow> error option \<times> 'p module" where
  "edit_model_inplace int_of model old_module module_name projection has_leftover =
     (case new_ProjectionWrapper old_module projection has_leftover of
        Inl e \<Rightarrow> (Some e, model)
      | Inr new_module \<Rightarrow>
          (let name = last (split_dot module_name);
               parent_name = join_dot (butlast (split_dot module_name))
           in case get_submodule model parent_name of
                Inl e \<Rightarrow> (Some e, model)
              | Inr parent \<Rightarrow>
                  (case set_slot int_of parent name new_module of
                     Inl e \<Rightarrow> (Some e, model)
                   | Inr parent' \<Rightarrow> (None, replace_submodule model parent_name parent'))))"

text \<open>\<^verbatim>\<open>recover_model_inplace(model, old_module, module_name)\<close>\<close>

definition recover_model_inplace ::
  "(string \<Rightarrow> int option) \<Rightarrow> 'p module \<Rightarrow> 'p module \<Rightarrow> string \<Rightarrow> error option \<times> 'p module" where
  "recover_model_inplace int_of model old_module module_name =
     (let name = last (split_dot module_name);
          parent_name = join_dot (butlast (split_dot module_name))
      in case get_submodule model parent_name of
           Inl e \<Rightarrow> (Some e, model)
         | Inr parent \<Rightarrow>
             (case set_slot int_of parent name old_module of
                Inl e \<Rightarrow> (Some e, model)
              | Inr parent' \<Rightarrow> (None, replace_submodule model parent_name parent')))"

text \<open>
  Two small models for concrete runs: a model whose list \<^verbatim>\<open>h\<close> holds one block, the block
  being either a plain module or an already wrapped one. Projections are named by
  numbers.
\<close>

definition plain_block :: "nat module" where
  "plain_block = Module (Plain 1) [''weight''] [(''mlp'', Module (Plain 2) [] [])]"

definition wrapped_block :: "nat \<Rightarrow> bool \<Rightarrow> nat module" where
  "wrapped_block projection has_leftover =
     Module (ProjectionWrapper projection has_leftover) [''projection'', ''has_leftover'']
       [(''wrapped_module'', plain_block)]"

definition model_of_block :: "nat module \<Rightarrow> nat module" where
  "model_of_block block = Module (Plain 0) [] [(''h'', Module ModuleList [] [(''0'', block)])]"

section \<open>Forward hooks\<close>

text \<open>
  A module returns a tensor or a tuple of tensors. The tensor type \<open>'t\<close> is a parameter;
  the probe below uses three operations of the tensor library on it, collected in
  \<open>tensor_ops\<close>: the iteration over the first axis (\<open>None\<close> for a tensor without axes, on
  which indexing and iteration raise), and broadcasting addition and subtraction.
\<close>

datatype 't out = Tensor 't | Tuple "'t list"

record 't tensor_ops =
  t_rows :: "'t \<Rightarrow> 't list option"
  t_add :: "'t \<Rightarrow> 't \<Rightarrow> 't"
  t_sub :: "'t \<Rightarrow> 't \<Rightarrow> 't"

text \<open>
  A forward hook is called with the module, its input and its output, and returns
  \<^verbatim>\<open>None\<close> or a replacement of the output; it may raise. The hook \<^verbatim>\<open>hook_fn\<close> that
  \<^verbatim>\<open>get_activations\<close> defines is \<open>Capture operation\<close>: it writes into the dictionary
  \<^verbatim>\<open>activations\<close> of the running call and returns \<^verbatim>\<open>None\<close>. Every other hook is a function
  \<open>Modify f\<close> of its three arguments.
\<close>

datatype ('m, 't) hook =
    Capture "'t \<Rightarrow> error + 't"
  | Modify "'m \<Rightarrow> 't out \<Rightarrow> 't out \<Rightarrow> error + 't out option"

text \<open>
  The hook state of the tensor library: for each module its ordered dictionary
  \<^verbatim>\<open>_forward_hooks\<close> from handle ids to hooks, and the global counter that numbers the
  handles. A handle is the module together with the id.
\<close>

record ('m, 't) hook_state =
  forward_hooks :: "'m \<Rightarrow> (nat \<times> ('m, 't) hook) list"
  next_id :: nat

text \<open>
  The hooks \<open>hooks\<close> with the hook \<open>h\<close> bound to the id \<open>i\<close> in the dictionary of the module
  \<open>m\<close>: a new id is added at the end of the dictionary.
\<close>

definition with_hook ::
  "('m \<Rightarrow> (nat \<times> ('m, 't) hook) list) \<Rightarrow> 'm \<Rightarrow> nat \<Rightarrow> ('m, 't) hook
     \<Rightarrow> ('m \<Rightarrow> (nat \<times> ('m, 't) hook) list)" where
  "with_hook hooks m i h = hooks(m := AList.update i h (hooks m))"

text \<open>
  \<^verbatim>\<open>module.register_forward_hook(h)\<close>: the handle takes the next id, and the hook is
  stored under it.
\<close>

definition register_forward_hook ::
  "'m \<Rightarrow> ('m, 't) hook \<Rightarrow> ('m, 't) hook_state \<Rightarrow> ('m \<times> nat) \<times> ('m, 't) hook_state" where
  "register_forward_hook m h st =
     ((m, next_id st),
      st\<lparr>forward_hooks := with_hook (forward_hooks st) m (next_id st) h,
         next_id := Suc (next_id st)\<rparr>)"

text \<open>\<^verbatim>\<open>handle.remove()\<close> deletes the id from the dictionary when it is there.\<close>

definition remove :: "'m \<times> nat \<Rightarrow> ('m, 't) hook_state \<Rightarrow> ('m, 't) hook_state" where
  "remove handle st =
     st\<lparr>forward_hooks :=
          (forward_hooks st)(fst handle := AList.delete (snd handle) (forward_hooks st (fst handle)))\<rparr>"

text \<open>
  The two loops that both functions share: \<^verbatim>\<open>handles.append(module.register_forward_hook(f))\<close>
  over the pairs of a module and a hook, and \<^verbatim>\<open>handle.remove()\<close> over the handles.
\<close>

fun register_all ::
  "('m \<times> ('m, 't) hook) list \<Rightarrow> ('m, 't) hook_state \<Rightarrow> ('m \<times> nat) list \<times> ('m, 't) hook_state" where
  "register_all [] st = ([], st)"
| "register_all ((m, h) # rest) st =
     (let (handle, st1) = register_forward_hook m h st;
          (handles, st2) = register_all rest st1
      in (handle # handles, st2))"

fun remove_all :: "('m \<times> nat) list \<Rightarrow> ('m, 't) hook_state \<Rightarrow> ('m, 't) hook_state" where
  "remove_all [] st = st"
| "remove_all (handle # handles) st = remove_all handles (remove handle st)"

text \<open>\<^verbatim>\<open>out_ = out[0] if isinstance(out, tuple) else out\<close>\<close>

definition first_of :: "'t out \<Rightarrow> error + 't" where
  "first_of out = (case out of Tensor t \<Rightarrow> Inr t | Tuple [] \<Rightarrow> Inl IndexError | Tuple (t # _) \<Rightarrow> Inr t)"

text \<open>
  What \<^verbatim>\<open>nn.Module.__call__\<close> does after \<^verbatim>\<open>forward\<close>: every hook of the module is called in
  the order of registration, and a result that is not \<^verbatim>\<open>None\<close> replaces the output. The
  dictionary \<^verbatim>\<open>activations\<close> is threaded through.
\<close>

fun call_hooks ::
  "(nat \<times> ('m, 't) hook) list \<Rightarrow> 'm \<Rightarrow> 't out \<Rightarrow> 't out \<Rightarrow> ('m \<Rightarrow> 't option)
     \<Rightarrow> (error + 't out) \<times> ('m \<Rightarrow> 't option)" where
  "call_hooks [] m inp out activations = (Inr out, activations)"
| "call_hooks ((i, Capture operation) # hs) m inp out activations =
     (case first_of out of
        Inl e \<Rightarrow> (Inl e, activations)
      | Inr out' \<Rightarrow>
          (case operation out' of
             Inl e \<Rightarrow> (Inl e, activations)
           | Inr v \<Rightarrow> call_hooks hs m inp out (activations(m := Some v))))"
| "call_hooks ((i, Modify f) # hs) m inp out activations =
     (case f m inp out of
        Inl e \<Rightarrow> (Inl e, activations)
      | Inr None \<Rightarrow> call_hooks hs m inp out activations
      | Inr (Some out') \<Rightarrow> call_hooks hs m inp out' activations)"

text \<open>
  A model is what \<^verbatim>\<open>model(**tokens.to(model.device))\<close> computes: under the registered
  hooks and from the input, a result or an exception, and the dictionary written by the
  capturing hooks. Nothing else is assumed of it. A forward pass reads the hooks and does
  not register or remove any.
\<close>

type_synonym ('m, 't, 'x, 'y) model =
  "('m \<Rightarrow> (nat \<times> ('m, 't) hook) list) \<Rightarrow> 'x \<Rightarrow> ('m \<Rightarrow> 't option)
     \<Rightarrow> (error + 'y) \<times> ('m \<Rightarrow> 't option)"

text \<open>
  \<^verbatim>\<open>get_activations(tokens, model, modules, operation)\<close>: the result is the dictionary
  \<^verbatim>\<open>activations\<close> or the exception of the forward pass, and the hook state left behind.
  The \<^verbatim>\<open>finally\<close> clause runs on both paths.
\<close>

definition get_activations ::
  "'x \<Rightarrow> ('m, 't, 'x, 'y) model \<Rightarrow> 'm list \<Rightarrow> ('t \<Rightarrow> error + 't) \<Rightarrow> ('m, 't) hook_state
     \<Rightarrow> (error + ('m \<Rightarrow> 't option)) \<times> ('m, 't) hook_state" where
  "get_activations tokens model modules operation st =
     (let (handles, st1) = register_all (map (\<lambda>m. (m, Capture operation)) modules) st;
          (res, activations) = model (forward_hooks st1) tokens (\<lambda>m. None);
          st2 = remove_all handles st1
      in (case res of Inl e \<Rightarrow> (Inl e, st2) | Inr out \<Rightarrow> (Inr activations, st2)))"

text \<open>
  \<^verbatim>\<open>run_and_modify(tokens, model, modification_fns)\<close>, the dictionary
  \<^verbatim>\<open>modification_fns\<close> being the list of its items.
\<close>

definition run_and_modify ::
  "'x \<Rightarrow> ('m, 't, 'x, 'y) model
     \<Rightarrow> ('m \<times> ('m \<Rightarrow> 't out \<Rightarrow> 't out \<Rightarrow> error + 't out option)) list
     \<Rightarrow> ('m, 't) hook_state \<Rightarrow> (error + 'y) \<times> ('m, 't) hook_state" where
  "run_and_modify tokens model modification_fns st =
     (let (handles, st1) = register_all (map (\<lambda>(m, f). (m, Modify f)) modification_fns) st;
          (res, activations) = model (forward_hooks st1) tokens (\<lambda>m. None);
          st2 = remove_all handles st1
      in (res, st2))"

text \<open>
  The invariant of the hook state that the tensor library maintains: the counter is
  above every id in use.
\<close>

definition ids_below_next :: "('m, 't) hook_state \<Rightarrow> bool" where
  "ids_below_next st = (\<forall>m. \<forall>i \<in> fst ` set (forward_hooks st m). i < next_id st)"

section \<open>The causal-intervention probe\<close>

text \<open>\<^verbatim>\<open>lambda x: x[0]\<close>, the operation that the probe passes to \<^verbatim>\<open>get_activations\<close>\<close>

definition index0 :: "'t tensor_ops \<Rightarrow> 't \<Rightarrow> error + 't" where
  "index0 ops x =
     (case t_rows ops x of None \<Rightarrow> Inl IndexError | Some [] \<Rightarrow> Inl IndexError | Some (r # _) \<Rightarrow> Inr r)"

text \<open>
  \<^verbatim>\<open>y, *rest = output\<close>: a tuple needs one element at least; a tensor is iterated over its
  first axis.
\<close>

definition unpack :: "'t tensor_ops \<Rightarrow> 't out \<Rightarrow> error + ('t \<times> 't list)" where
  "unpack ops output =
     (case output of
        Tuple [] \<Rightarrow> Inl ValueError
      | Tuple (y # rest) \<Rightarrow> Inr (y, rest)
      | Tensor t \<Rightarrow>
          (case t_rows ops t of
             None \<Rightarrow> Inl TypeError
           | Some [] \<Rightarrow> Inl ValueError
           | Some (y # rest) \<Rightarrow> Inr (y, rest)))"

text \<open>
  \<^verbatim>\<open>proj_act1 = act1 - projection_fn(act1, dirs)\<close>; the projection function may raise.
\<close>

definition proj_act1 ::
  "'t tensor_ops \<Rightarrow> ('t \<Rightarrow> 'd \<Rightarrow> error + 't) \<Rightarrow> 'd \<Rightarrow> 't \<Rightarrow> error + 't" where
  "proj_act1 ops projection_fn dirs act1 =
     (case projection_fn act1 dirs of Inl e \<Rightarrow> Inl e | Inr p \<Rightarrow> Inr (t_sub ops act1 p))"

text \<open>
  The hook \<^verbatim>\<open>mix\<close>: \<^verbatim>\<open>y = projection_fn(y, dirs) + proj_act1 + additional\<close>,
  \<^verbatim>\<open>return (y, *rest)\<close>.
\<close>

definition mix ::
  "'t tensor_ops \<Rightarrow> ('t \<Rightarrow> 'd \<Rightarrow> error + 't) \<Rightarrow> 'd \<Rightarrow> 't \<Rightarrow> 't
     \<Rightarrow> 'm \<Rightarrow> 't out \<Rightarrow> 't out \<Rightarrow> error + 't out option" where
  "mix ops projection_fn dirs stored additional modul inp output =
     (case unpack ops output of
        Inl e \<Rightarrow> Inl e
      | Inr (y, rest) \<Rightarrow>
          (case projection_fn y dirs of
             Inl e \<Rightarrow> Inl e
           | Inr p \<Rightarrow> Inr (Some (Tuple (t_add ops (t_add ops p stored) additional # rest)))))"

text \<open>
  \<^verbatim>\<open>create_frankenstein(dirs, model, layer_module, additional, projection_fn)\<close> applied to
  \<^verbatim>\<open>(inp1, inp2)\<close>. A module that did not run leaves no entry in \<^verbatim>\<open>activations\<close>, and the
  lookup raises \<^verbatim>\<open>KeyError\<close>.
\<close>

definition create_frankenstein ::
  "'t tensor_ops \<Rightarrow> 'd \<Rightarrow> ('m, 't, 'x, 'y) model \<Rightarrow> 'm \<Rightarrow> 't \<Rightarrow> ('t \<Rightarrow> 'd \<Rightarrow> error + 't)
     \<Rightarrow> 'x \<Rightarrow> 'x \<Rightarrow> ('m, 't) hook_state \<Rightarrow> (error + 'y) \<times> ('m, 't) hook_state" where
  "create_frankenstein ops dirs model layer_module additional projection_fn inp1 inp2 st =
     (case get_activations inp1 model [layer_module] (index0 ops) st of
        (Inl e, st1) \<Rightarrow> (Inl e, st1)
      | (Inr activations, st1) \<Rightarrow>
          (case activations layer_module of
             None \<Rightarrow> (Inl KeyError, st1)
           | Some act1 \<Rightarrow>
               (case proj_act1 ops projection_fn dirs act1 of
                  Inl e \<Rightarrow> (Inl e, st1)
                | Inr stored \<Rightarrow>
                    run_and_modify inp2 model
                      [(layer_module, mix ops projection_fn dirs stored additional)] st1)))"

section \<open>Sequential models\<close>

text \<open>
  A model whose forward pass calls its modules one after the other, each on the output of
  the one before; a module is its identity and its \<^verbatim>\<open>forward\<close>, which may raise. The hooks
  of a module run after it.
\<close>

fun run_modules ::
  "('m \<Rightarrow> (nat \<times> ('m, 't) hook) list) \<Rightarrow> ('m \<times> ('t out \<Rightarrow> error + 't out)) list
     \<Rightarrow> 't out \<Rightarrow> ('m \<Rightarrow> 't option) \<Rightarrow> (error + 't out) \<times> ('m \<Rightarrow> 't option)" where
  "run_modules hooks [] x activations = (Inr x, activations)"
| "run_modules hooks ((m, forward) # ms) x activations =
     (case forward x of
        Inl e \<Rightarrow> (Inl e, activations)
      | Inr y \<Rightarrow>
          (case call_hooks (hooks m) m x y activations of
             (Inl e, activations') \<Rightarrow> (Inl e, activations')
           | (Inr y', activations') \<Rightarrow> run_modules hooks ms y' activations'))"

definition sequential ::
  "('m \<times> ('t out \<Rightarrow> error + 't out)) list \<Rightarrow> ('m, 't, 't out, 't out) model" where
  "sequential net = (\<lambda>hooks x activations. run_modules hooks net x activations)"

text \<open>
  The two notions of the claim about the probe, stated without hooks. The activation
  captured at a layer during a pass over an input: the first row of the (first component
  of the) output of the layer, the last call of the layer winning; \<open>acc\<close> is what was
  captured so far.
\<close>

fun captured_at ::
  "'t tensor_ops \<Rightarrow> ('m \<times> ('t out \<Rightarrow> error + 't out)) list \<Rightarrow> 'm \<Rightarrow> 't out
     \<Rightarrow> 't option \<Rightarrow> error + 't option" where
  "captured_at ops [] layer x acc = Inr acc"
| "captured_at ops ((m, forward) # ms) layer x acc =
     (case forward x of
        Inl e \<Rightarrow> Inl e
      | Inr y \<Rightarrow>
          if m = layer
          then (case first_of y of
                  Inl e \<Rightarrow> Inl e
                | Inr t \<Rightarrow>
                    (case index0 ops t of
                       Inl e \<Rightarrow> Inl e
                     | Inr a \<Rightarrow> captured_at ops ms layer y (Some a)))
          else captured_at ops ms layer y acc)"

text \<open>The pass in which the output of the layer is replaced by \<open>g\<close> of it.\<close>

fun run_replacing ::
  "('m \<times> ('t out \<Rightarrow> error + 't out)) list \<Rightarrow> 'm \<Rightarrow> ('t out \<Rightarrow> error + 't out)
     \<Rightarrow> 't out \<Rightarrow> error + 't out" where
  "run_replacing [] layer g x = Inr x"
| "run_replacing ((m, forward) # ms) layer g x =
     (case forward x of
        Inl e \<Rightarrow> Inl e
      | Inr y \<Rightarrow>
          if m = layer
          then (case g y of Inl e \<Rightarrow> Inl e | Inr y' \<Rightarrow> run_replacing ms layer g y')
          else run_replacing ms layer g y)"

text \<open>
  The replacement of the claim: the output \<open>(y, rest)\<close> becomes
  \<open>(projection_fn(y, dirs) + stored + additional, rest)\<close>.
\<close>

definition transplant ::
  "'t tensor_ops \<Rightarrow> ('t \<Rightarrow> 'd \<Rightarrow> error + 't) \<Rightarrow> 'd \<Rightarrow> 't \<Rightarrow> 't \<Rightarrow> 't out
     \<Rightarrow> error + 't out" where
  "transplant ops projection_fn dirs stored additional output =
     (case unpack ops output of
        Inl e \<Rightarrow> Inl e
      | Inr (y, rest) \<Rightarrow>
          (case projection_fn y dirs of
             Inl e \<Rightarrow> Inl e
           | Inr p \<Rightarrow> Inr (Tuple (t_add ops (t_add ops p stored) additional # rest))))"

text \<open>
  Tensors with two axes (rows by hidden dimension) as an instance: the rows of a tensor
  are tensors of one row, and a tensor of one row is broadcast over the rows of the other
  operand.
\<close>

definition broadcast2 :: "(vec \<Rightarrow> vec \<Rightarrow> vec) \<Rightarrow> vec list \<Rightarrow> vec list \<Rightarrow> vec list" where
  "broadcast2 f X Y =
     (if length Y = 1 then map (\<lambda>x. f x (hd Y)) X
      else if length X = 1 then map (\<lambda>y. f (hd X) y) Y
      else map2 f X Y)"

definition matrix_ops :: "vec list tensor_ops" where
  "matrix_ops =
     \<lparr>t_rows = (\<lambda>X. Some (map (\<lambda>x. [x]) X)), t_add = broadcast2 vadd, t_sub = broadcast2 vsub\<rparr>"

text \<open>
  Small models and hook states for concrete runs, over tensors with two axes and modules
  named by numbers: a network of two modules that return their input, a network whose
  second module raises, the hook state without hooks, and a hook state in which module 0
  has a hook already.
\<close>

definition identity_net :: "(nat \<times> (vec list out \<Rightarrow> error + vec list out)) list" where
  "identity_net = [(0, \<lambda>x. Inr x), (1, \<lambda>x. Inr x)]"

definition failing_net :: "(nat \<times> (vec list out \<Rightarrow> error + vec list out)) list" where
  "failing_net = [(0, \<lambda>x. Inr x), (1, \<lambda>x. Inl (ModuleError 7))]"

definition no_hooks :: "(nat, vec list) hook_state" where
  "no_hooks = \<lparr>forward_hooks = (\<lambda>m. []), next_id = 0\<rparr>"

definition one_hook :: "(nat, vec list) hook_state" where
  "one_hook =
     \<lparr>forward_hooks = (\<lambda>m. if m = 0 then [(0, Modify (\<lambda>m inp out. Inr None))] else []),
      next_id = 1\<rparr>"

section \<open>The swap-test confusion score\<close>

text \<open>
  A test has a positive and a negative side, each a prompt with its expected answer.
\<close>

record side =
  prompt :: string
  answer :: string

record test =
  positive :: side
  negative :: side

text \<open>Relabelling: the side called positive becomes the negative one and conversely.\<close>

definition swap_labels :: "test \<Rightarrow> test" where
  "swap_labels t = \<lparr>positive = negative t, negative = positive t\<rparr>"

text \<open>
  Sequencing of steps that may raise: the first exception ends the computation.
\<close>

definition and_then :: "error + 'a \<Rightarrow> ('a \<Rightarrow> error + 'b) \<Rightarrow> error + 'b" where
  "and_then r f = (case r of Inl e \<Rightarrow> Inl e | Inr v \<Rightarrow> f v)"

text \<open>Indexing a list or a tensor axis; out of range raises \<^verbatim>\<open>IndexError\<close>.\<close>

definition nth_err :: "'a list \<Rightarrow> nat \<Rightarrow> error + 'a" where
  "nth_err xs k = (if k < length xs then Inr (xs ! k) else Inl IndexError)"

text \<open>
  \<^verbatim>\<open>logits[:, -1]\<close> on the logits (batch by position by vocabulary), and
  \<^verbatim>\<open>torch.log_softmax(row, dim=-1)\<close> on one row.
\<close>

definition last_position :: "real list list list \<Rightarrow> error + real list list" where
  "last_position logits =
     (if list_ex (\<lambda>positions. positions = []) logits then Inl IndexError
      else Inr (map last logits))"

definition log_softmax :: "real list \<Rightarrow> real list" where
  "log_softmax row = map (\<lambda>v. v - ln (\<Sum>u \<leftarrow> row. exp u)) row"

text \<open>\<^verbatim>\<open>out_mixed[correct] - out_mixed[wrong]\<close>\<close>

definition margin :: "real list \<Rightarrow> nat \<Rightarrow> nat \<Rightarrow> error + real" where
  "margin out_mixed correct wrong =
     and_then (nth_err out_mixed correct) (\<lambda>a.
     and_then (nth_err out_mixed wrong) (\<lambda>b. Inr (a - b)))"

text \<open>
  \<^verbatim>\<open>measure_confusions_grad(test, model)\<close>. The tokenizer of the constants module is a
  parameter in two parts: \<open>tokenizer\<close> encodes one prompt, a batch being the list of the
  encodings of its prompts, and \<open>encode\<close> gives the token ids of an answer. The model is
  called once, on the two batches of four prompts, and returns the logits (batch by
  position by vocabulary) or raises. The four rows are indexed \<open>2 * i + j\<close>; the tokens
  \<^verbatim>\<open>correct\<close> and \<^verbatim>\<open>wrong\<close> of the outer index \<open>i\<close> are the first tokens of the answers of
  side \<open>i\<close> and of the other side.
\<close>

definition measure_confusions_grad ::
  "(string \<Rightarrow> 'tk) \<Rightarrow> (string \<Rightarrow> nat list) \<Rightarrow> test
     \<Rightarrow> ('tk list \<Rightarrow> 'tk list \<Rightarrow> error + real list list list) \<Rightarrow> error + real" where
  "measure_confusions_grad tokenizer encode t model =
     (let qs = [positive t, negative t];
          inps1 = concat (map (\<lambda>q1. map (\<lambda>q2. prompt q1) qs) qs);
          inps2 = concat (map (\<lambda>q1. map (\<lambda>q2. prompt q2) qs) qs)
      in and_then (model (map tokenizer inps1) (map tokenizer inps2)) (\<lambda>logits.
         and_then (last_position logits) (\<lambda>rows.
         and_then (nth_err (map log_softmax rows) 0) (\<lambda>o00.
         and_then (nth_err (map log_softmax rows) 1) (\<lambda>o01.
         and_then (nth_err (map log_softmax rows) 2) (\<lambda>o10.
         and_then (nth_err (map log_softmax rows) 3) (\<lambda>o11.
         and_then (nth_err (encode (answer (positive t))) 0) (\<lambda>c0.
         and_then (nth_err (encode (answer (negative t))) 0) (\<lambda>w0.
         and_then (margin o00 c0 w0) (\<lambda>res00.
         and_then (margin o01 c0 w0) (\<lambda>res01.
         and_then (margin o10 w0 c0) (\<lambda>res10.
         and_then (margin o11 w0 c0) (\<lambda>res11.
         Inr (\<bar>res00 - res01\<bar> + \<bar>res11 - res10\<bar>))))))))))))))"

text \<open>
  \<^verbatim>\<open>measure_confusions(test, model)\<close>: the same value, computed without gradient tracking
  and returned as a plain number.
\<close>

definition measure_confusions ::
  "(string \<Rightarrow> 'tk) \<Rightarrow> (string \<Rightarrow> nat list) \<Rightarrow> test
     \<Rightarrow> ('tk list \<Rightarrow> 'tk list \<Rightarrow> error + real list list list) \<Rightarrow> error + real" where
  "measure_confusions tokenizer encode t model = measure_confusions_grad tokenizer encode t model"

text \<open>
  A model that computes each row of its output from the same row of its two input
  batches, by \<open>f\<close>.
\<close>

definition rowwise ::
  "('tk \<Rightarrow> 'tk \<Rightarrow> real list list) \<Rightarrow> 'tk list \<Rightarrow> 'tk list \<Rightarrow> error + real list list list" where
  "rowwise f inps1 inps2 = Inr (map2 f inps1 inps2)"

text \<open>A test and the first tokens of its answers, for concrete runs.\<close>

definition example_test :: test where
  "example_test =
     \<lparr>positive = \<lparr>prompt = ''p'', answer = ''a''\<rparr>, negative = \<lparr>prompt = ''n'', answer = ''b''\<rparr>\<rparr>"

definition example_encode :: "string \<Rightarrow> nat list" where
  "example_encode s = (if s = ''a'' then [0] else [1])"

text \<open>
  A probe as a model of the score. The network has two modules over tensors with two
  axes: the probed one returns its input, and the next one maps every row \<open>(a, b)\<close> of
  the hidden state to the logits \<open>(a * b, 0)\<close> of a vocabulary of two tokens. The probe is
  \<^verbatim>\<open>create_frankenstein\<close> at module 0 for the direction (1, 0) with \<^verbatim>\<open>project\<close>; the
  encoding of a prompt is its row of the batch, and the logits have one position.
\<close>

definition product_net :: "(nat \<times> (vec list out \<Rightarrow> error + vec list out)) list" where
  "product_net =
     [(0, \<lambda>x. Inr x),
      (1, \<lambda>x. case first_of x of
                 Inl e \<Rightarrow> Inl e
               | Inr X \<Rightarrow> Inr (Tensor (map (\<lambda>r. case r of a # b # _ \<Rightarrow> [a * b, 0] | _ \<Rightarrow> r) X)))]"

definition probe_model :: "vec list \<Rightarrow> vec list \<Rightarrow> error + real list list list" where
  "probe_model inps1 inps2 =
     (case fst (create_frankenstein matrix_ops [[1, 0]] (sequential product_net) 0 [[0, 0]]
                  (\<lambda>X dirs. project X dirs 1) (Tuple [inps1]) (Tuple [inps2]) no_hooks) of
        Inl e \<Rightarrow> Inl e
      | Inr out \<Rightarrow>
          (case first_of out of
             Inl e \<Rightarrow> Inl e
           | Inr logits \<Rightarrow> Inr (map (\<lambda>row. [row]) logits)))"

definition example_tokenizer :: "string \<Rightarrow> vec" where
  "example_tokenizer s = (if s = ''p'' then [2, 1] else [0, 3])"

section \<open>Results: file names\<close>

text \<open>
  C7 (the saved file's name carries the \<^verbatim>\<open>L<layer_nb> - \<close> prefix if and only if an explicit
  layer index was requested, layer 0 included): evaluated at the explicit request
  \<^verbatim>\<open>layer_nb = 0\<close>. The name has no prefix and equals the name produced when the argument
  is omitted, and the layer used is the middle one, not layer 0.
\<close>

theorem file_name_layer_zero:
  "file_name (Some 0) ''get_random'' 0 = ''get_random - 0 - v0.pt''
   \<and> file_name (Some 0) ''get_random'' 0 = file_name None ''get_random'' 0
   \<and> \<not> has_layer_prefix 0 (file_name (Some 0) ''get_random'' 0)
   \<and> has_layer_prefix 3 (file_name (Some 3) ''get_random'' 0)
   \<and> layer_module_name (Some 0) 12 = ''transformer.h.6''"
  by (simp add: file_name_def has_layer_prefix_def layer_module_name_def layer_nb_used_def str_int_def
      digit_char_def)

section \<open>Results: word wrap\<close>

text \<open>
  C9 (no printed line is longer than \<^verbatim>\<open>max_line_length\<close> when every word fits): evaluated
  at the text \<^verbatim>\<open>"ab cd"\<close> with \<^verbatim>\<open>max_line_length = 4\<close>. Both words have length 2, the
  counter reaches 4 and never exceeds the limit, and the single printed line has 5
  characters.
\<close>

theorem fancy_print_overlong_line:
  "fancy_print ''ab cd'' 4 = [''ab cd'']
   \<and> list_all (\<lambda>w. int (length w) \<le> 4) (split_ws ''ab cd'')
   \<and> int (length (hd (fancy_print ''ab cd'' 4))) > 4"
  by (simp add: fancy_print_def split_ws_def is_space_def)

section \<open>Results: linear projection\<close>

lemma length_lincomb: "\<forall>d \<in> set ds. length d = h \<Longrightarrow> length (lincomb h cs ds) = h"
  by (induction h cs ds rule: lincomb.induct) (auto simp: vadd_def vscale_def)

lemma dot_commute: "dot xs ys = dot ys xs"
proof -
  have "map2 (*) xs ys = map2 (*) ys xs"
    by (induction xs arbitrary: ys) (auto simp: zip_Cons1 split: list.splits)
  hence "map2 (*) xs ys = map2 (*) ys xs" .
  thus ?thesis by (simp add: dot_def)
qed

lemma dot_vsub: "length xs = length ys \<Longrightarrow> length ys = length v \<Longrightarrow>
    dot (vsub xs ys) v = dot xs v - dot ys v"
proof (induction xs arbitrary: ys v)
  case Nil thus ?case by (simp add: dot_def vsub_def)
next
  case (Cons x xs)
  then obtain y ys' w v' where "ys = y # ys'" "v = w # v'"
    by (metis length_Suc_conv)
  with Cons show ?case by (simp add: dot_def vsub_def algebra_simps)
qed

lemma dot_vadd: "length xs = length ys \<Longrightarrow> length ys = length v \<Longrightarrow>
    dot (vadd xs ys) v = dot xs v + dot ys v"
proof (induction xs arbitrary: ys v)
  case Nil thus ?case by (simp add: dot_def vadd_def)
next
  case (Cons x xs)
  then obtain y ys' w v' where "ys = y # ys'" "v = w # v'"
    by (metis length_Suc_conv)
  with Cons show ?case by (simp add: dot_def vadd_def algebra_simps)
qed

lemma dot_vscale: "dot (vscale c xs) v = c * dot xs v"
proof (induction xs arbitrary: v)
  case Nil thus ?case by (simp add: dot_def vscale_def)
next
  case (Cons x xs) thus ?case
    by (cases v) (auto simp: dot_def vscale_def algebra_simps)
qed

lemma vscale_one: "vscale 1 xs = xs"
  by (induction xs) (simp_all add: vscale_def)

lemma dot_replicate_zero: "dot (replicate h 0) v = 0"
proof (induction h arbitrary: v)
  case 0 thus ?case by (simp add: dot_def)
next
  case (Suc h) thus ?case by (cases v) (auto simp: dot_def)
qed

lemma dot_lincomb:
  "\<forall>d \<in> set ds. length d = h \<Longrightarrow> length v = h \<Longrightarrow> length cs = length ds \<Longrightarrow>
   dot (lincomb h cs ds) v = (\<Sum>(c, d) \<leftarrow> zip cs ds. c * dot d v)"
proof (induction h cs ds rule: lincomb.induct)
  case (1 h c cs d ds)
  have "length (vscale c d) = length (lincomb h cs ds)"
    using 1 by (simp add: length_lincomb vscale_def)
  moreover have "length (lincomb h cs ds) = length v"
    using 1 by (simp add: length_lincomb)
  ultimately show ?case using 1 by (simp add: dot_vadd dot_vscale)
qed (simp_all add: dot_replicate_zero)

lemma sum_list_zero_factor:
  "\<forall>d \<in> set ds. f d = 0 \<Longrightarrow> (\<Sum>d \<leftarrow> ds. g d * f d) = (0 :: real)"
  by (induction ds) simp_all

lemma sum_orthonormal_aux:
  "k < length ds \<Longrightarrow> (\<forall>i < length ds. f (ds ! i) = (if i = k then 1 else 0)) \<Longrightarrow>
   (\<Sum>d \<leftarrow> ds. g d * f d) = (g (ds ! k) :: real)"
proof (induction ds arbitrary: k)
  case Nil thus ?case by simp
next
  case (Cons d ds)
  show ?case
  proof (cases k)
    case 0
    have "\<forall>i < length ds. f (ds ! i) = 0"
      using Cons.prems(2) 0 by (metis Suc_less_eq length_Cons nat.distinct(1) nth_Cons_Suc)
    hence "\<forall>d \<in> set ds. f d = 0"
      by (auto simp: in_set_conv_nth)
    hence "(\<Sum>d \<leftarrow> ds. g d * f d) = 0"
      by (rule sum_list_zero_factor)
    moreover have "f d = 1" using Cons.prems(2) 0 by fastforce
    ultimately show ?thesis using 0 by simp
  next
    case (Suc k')
    have a: "k' < length ds" using Cons.prems(1) Suc by simp
    have b: "\<forall>i < length ds. f (ds ! i) = (if i = k' then 1 else 0)"
      using Cons.prems(2) Suc by (metis Suc_less_eq length_Cons nat.inject nth_Cons_Suc)
    have "f d = 0" using Cons.prems(2) Suc by fastforce
    thus ?thesis using Cons.IH[OF a b] Suc by simp
  qed
qed

lemma project_row_orthogonal:
  assumes "orthonormal dirs" and "\<forall>d \<in> set dirs. length d = length x" and "k < length dirs"
  shows "dot (project_row dirs 1 x) (dirs ! k) = 0"
proof -
  let ?h = "length x"
  let ?cs = "map (\<lambda>d. dot d x) dirs"
  have lv: "length (dirs ! k) = ?h" using assms by simp
  have ll: "length (lincomb ?h ?cs dirs) = ?h" using assms(2) by (simp add: length_lincomb)
  have "dot (lincomb ?h ?cs dirs) (dirs ! k) = (\<Sum>(c, d) \<leftarrow> zip ?cs dirs. c * dot d (dirs ! k))"
    using assms(2) lv by (simp add: dot_lincomb)
  also have "zip ?cs dirs = map (\<lambda>d. (dot d x, d)) dirs"
    by (induction dirs) auto
  also have "(\<Sum>(c, d) \<leftarrow> map (\<lambda>d. (dot d x, d)) dirs. c * dot d (dirs ! k))
      = (\<Sum>d \<leftarrow> dirs. dot d x * dot d (dirs ! k))"
    by (simp add: comp_def)
  also have "\<dots> = dot (dirs ! k) x"
    using assms(1,3) by (intro sum_orthonormal_aux) (auto simp: orthonormal_def)
  finally have "dot (lincomb ?h ?cs dirs) (dirs ! k) = dot x (dirs ! k)"
    by (simp add: dot_commute)
  moreover have "vscale 1 (lincomb ?h ?cs dirs) = lincomb ?h ?cs dirs"
    by (rule vscale_one)
  ultimately show ?thesis
    using ll lv by (simp add: project_row_def dot_vsub)
qed

text \<open>
  C5 (for every batch of input vectors and every matrix of mutually orthonormal direction
  rows with at least one row, each row of \<^verbatim>\<open>project(X, dirs)\<close> with strength 1 has zero
  inner product with every direction row): over exact real arithmetic the inner products
  are exactly zero. The rows of the batch and of the direction matrix have the same width,
  as the contraction requires.
\<close>

theorem project_orthogonal_to_dirs:
  assumes "orthonormal dirs" and "dirs \<noteq> []"
    and "\<forall>x \<in> set X. \<forall>d \<in> set dirs. length d = length x"
  shows "\<exists>Y. project X dirs 1 = Inr Y \<and> length Y = length X
           \<and> (\<forall>y \<in> set Y. \<forall>d \<in> set dirs. dot y d = 0)"
proof -
  have sw: "same_width X dirs"
    using assms(3) by (simp add: same_width_def list_all_iff)
  have "dot (project_row dirs 1 x) d = 0" if x: "x \<in> set X" and d: "d \<in> set dirs" for x d
  proof -
    obtain k where "k < length dirs" "d = dirs ! k"
      using d by (auto simp: in_set_conv_nth)
    moreover have "\<forall>d \<in> set dirs. length d = length x"
      using assms(3) x by simp
    ultimately show ?thesis
      using project_row_orthogonal[OF assms(1)] by simp
  qed
  thus ?thesis using sw by (simp add: project_def)
qed

text \<open>The theorem at two directions of width 3 and a batch of two rows.\<close>

theorem project_orthogonal_to_dirs_witness:
  "orthonormal [[1, 0, 0], [0, 1, 0]]
   \<and> (\<exists>Y. project [[3, 4, 5], [-1, 2, 7]] [[1, 0, 0], [0, 1, 0]] 1 = Inr Y \<and> length Y = 2
        \<and> list_all (\<lambda>y. list_all (\<lambda>d. dot y d = 0) [[1, 0, 0], [0, 1, 0]]) Y)
   \<and> project [[3, 4, 5], [-1, 2, 7]] [[1, 0, 0], [0, 1, 0]] 1 = Inr [[0, 0, 5], [0, 0, 7]]"
proof -
  have o: "orthonormal [[1, 0, 0], [0, 1, 0]]"
    by (simp add: orthonormal_def dot_def less_Suc_eq)
  have w: "\<forall>x \<in> set [[3, 4, 5], [-1, 2, 7 :: real]]. \<forall>d \<in> set [[1, 0, 0], [0, 1, 0 :: real]].
      length d = length x"
    by simp
  have e: "project [[3, 4, 5], [-1, 2, 7]] [[1, 0, 0], [0, 1, 0]] 1 = Inr [[0, 0, 5], [0, 0, 7]]"
    by (simp add: project_def same_width_def project_row_def dot_def vsub_def vscale_def vadd_def)
  show ?thesis
    using o e project_orthogonal_to_dirs[OF o _ w] by (simp add: list_all_iff)
qed

section \<open>Results: conical projection\<close>

text \<open>
  C3 (\<^verbatim>\<open>project_cone\<close> raises the validation error \<^verbatim>\<open>ValueError\<close> for every \<open>gamma\<close> that
  is 0, negative, or at or beyond \<open>pi / 2\<close>, and for no \<open>gamma\<close> strictly between): the
  result is the \<^verbatim>\<open>ValueError\<close> exactly when \<open>gamma \<le> 0\<close> or \<open>pi / 2 \<le> gamma\<close>, whatever the
  batch and the directions; strictly between, a batch as wide as the directions gives a
  result with one row per input row.
\<close>

theorem project_cone_validation:
  "(project_cone X dirs gamma = Inl ValueError \<longleftrightarrow> gamma \<le> 0 \<or> pi / 2 \<le> gamma)
   \<and> (0 < gamma \<and> gamma < pi / 2 \<and> same_width X dirs
        \<longrightarrow> (\<exists>Y. project_cone X dirs gamma = Inr Y \<and> length Y = length X))"
proof -
  have "length (foldl (\<lambda>Xi d. map (cone_row d gamma) Xi) X ds) = length X" for ds
    by (induction ds arbitrary: X) simp_all
  thus ?thesis by (simp add: project_cone_def)
qed

text \<open>The theorem at the angles 0, -1, \<open>pi / 2\<close>, 2 and 1/2.\<close>

theorem project_cone_validation_witness:
  "project_cone [[1, 0]] [[1, 0]] 0 = Inl ValueError
   \<and> project_cone [[1, 0]] [[1, 0]] (- 1) = Inl ValueError
   \<and> project_cone [[1, 0]] [[1, 0]] (pi / 2) = Inl ValueError
   \<and> project_cone [[1, 0]] [[1, 0]] 2 = Inl ValueError
   \<and> project_cone [[1, 0]] [[1, 0]] (1 / 2) \<noteq> Inl ValueError
   \<and> (\<exists>Y. project_cone [[1, 0]] [[1, 0]] (1 / 2) = Inr Y \<and> length Y = 1)"
proof -
  have a: "(1 / 2 :: real) < pi / 2" using pi_ge_two by simp
  have b: "pi / 2 \<le> (2 :: real)" using pi_half_less_two by simp
  have s: "same_width [[1, 0]] [[1, 0]]" by (simp add: same_width_def)
  show ?thesis
    using a b s
      project_cone_validation[of "[[1, 0]]" "[[1, 0]]" 0]
      project_cone_validation[of "[[1, 0]]" "[[1, 0]]" "- 1"]
      project_cone_validation[of "[[1, 0]]" "[[1, 0]]" "pi / 2"]
      project_cone_validation[of "[[1, 0]]" "[[1, 0]]" 2]
      project_cone_validation[of "[[1, 0]]" "[[1, 0]]" "1 / 2"]
    by simp
qed

section \<open>Results: activation datasets\<close>

text \<open>
  C8 (\<^verbatim>\<open>ActivationsDataset.project(direction)\<close> returns a new dataset and leaves the original
  instance's activation matrix and label vector unmodified, the in-place variant
  \<^verbatim>\<open>project_\<close> overwrites the instance's own activation matrix, and the two resulting
  activation matrices are identical): \<^verbatim>\<open>project\<close> allocates a new object and leaves every
  object of the store as it was; \<^verbatim>\<open>project_\<close> changes the object \<open>self\<close> only, and only its
  \<^verbatim>\<open>x_data\<close>, to the matrix the new object of \<^verbatim>\<open>project\<close> holds; both raise the same error
  when the projection raises. The division by the norm is exact; for the zero direction,
  which the claim leaves out, it is the total division of HOL and says nothing about the
  code.
\<close>

theorem dataset_project_frame:
  assumes "self < length store"
  shows "case ds_project store self dir of
           Inl e \<Rightarrow> ds_project_inplace store self dir = Inl e
         | Inr (new, store') \<Rightarrow>
             new \<noteq> self \<and> take (length store) store' = store
             \<and> y_data (store' ! new) = y_data (store ! self)
             \<and> (\<exists>store''. ds_project_inplace store self dir = Inr store''
                  \<and> x_data (store'' ! self) = x_data (store' ! new)
                  \<and> y_data (store'' ! self) = y_data (store ! self)
                  \<and> store'' = store[self := store'' ! self])"
  using assms by (auto simp: ds_project_def ds_project_inplace_def split: sum.splits)

text \<open>The theorem at a store of one dataset of two samples and the direction (2, 0).\<close>

theorem dataset_project_frame_witness:
  "(0 :: nat) < length [\<lparr>x_data = [[3, 4], [5, 6]], y_data = [1, 0]\<rparr>]
   \<and> ds_project [\<lparr>x_data = [[3, 4], [5, 6]], y_data = [1, 0]\<rparr>] 0 [2, 0]
       = Inr (1, [\<lparr>x_data = [[3, 4], [5, 6]], y_data = [1, 0]\<rparr>,
                  \<lparr>x_data = [[0, 4], [0, 6]], y_data = [1, 0]\<rparr>])
   \<and> ds_project_inplace [\<lparr>x_data = [[3, 4], [5, 6]], y_data = [1, 0]\<rparr>] 0 [2, 0]
       = Inr [\<lparr>x_data = [[0, 4], [0, 6]], y_data = [1, 0]\<rparr>]"
proof -
  have n: "linalg_norm [2, 0] = 2"
    using real_sqrt_abs[of 2] by (simp add: linalg_norm_def)
  show ?thesis
    using dataset_project_frame[of 0 "[\<lparr>x_data = [[3, 4], [5, 6]], y_data = [1, 0]\<rparr>]" "[2, 0]"]
    by (simp add: ds_project_def ds_project_inplace_def dir_norm_def n project_def same_width_def
        project_row_def dot_def vsub_def vscale_def vadd_def)
qed

section \<open>Results: model patching\<close>

lemma split_dot_nonempty: "split_dot s \<noteq> []"
  by (induction s) auto

lemma split_dot_no_dot: "\<forall>w \<in> set (split_dot s). CHR ''.'' \<notin> set w"
proof (induction s)
  case Nil
  show ?case by simp
next
  case (Cons c cs)
  obtain w ws where w: "split_dot cs = w # ws"
    using split_dot_nonempty[of cs] by (cases "split_dot cs") auto
  with Cons show ?case by auto
qed

lemma split_dot_append_atom:
  "CHR ''.'' \<notin> set w \<Longrightarrow> split_dot (w @ CHR ''.'' # s) = w # split_dot s"
  by (induction w) auto

lemma split_dot_atom: "CHR ''.'' \<notin> set w \<Longrightarrow> split_dot w = [w]"
  by (induction w) auto

lemma split_join_dot:
  "ws \<noteq> [] \<Longrightarrow> \<forall>w \<in> set ws. CHR ''.'' \<notin> set w \<Longrightarrow> split_dot (join_dot ws) = ws"
proof (induction ws rule: join_dot.induct)
  case 1
  then show ?case by simp
next
  case (2 w)
  then show ?case by (simp add: split_dot_atom)
next
  case (3 w v va)
  then show ?case by (simp add: split_dot_append_atom)
qed

lemma join_dot_empty: "join_dot ws = [] \<Longrightarrow> [] \<notin> set ws \<Longrightarrow> ws = []"
  by (induction ws rule: join_dot.induct) auto

text \<open>Resolving the parent's name is walking the atoms before the last one.\<close>

lemma get_submodule_parent:
  assumes "[] \<notin> set (split_dot p)"
  shows "get_submodule m (join_dot (butlast (split_dot p))) = get_atoms m (butlast (split_dot p))"
proof (cases "butlast (split_dot p) = []")
  case True
  then show ?thesis by (simp add: get_submodule_def)
next
  case False
  have nodot: "\<forall>w \<in> set (butlast (split_dot p)). CHR ''.'' \<notin> set w"
    using split_dot_no_dot[of p] by (meson in_set_butlastD)
  have "[] \<notin> set (butlast (split_dot p))"
    using assms by (meson in_set_butlastD)
  hence "join_dot (butlast (split_dot p)) \<noteq> []"
    using False join_dot_empty by blast
  thus ?thesis
    using False nodot by (simp add: get_submodule_def split_join_dot)
qed

lemma replace_submodule_parent:
  assumes "[] \<notin> set (split_dot p)"
  shows "replace_submodule m (join_dot (butlast (split_dot p))) new
         = replace_atoms m (butlast (split_dot p)) new"
proof (cases "butlast (split_dot p) = []")
  case True
  then show ?thesis by (simp add: replace_submodule_def)
next
  case False
  have nodot: "\<forall>w \<in> set (butlast (split_dot p)). CHR ''.'' \<notin> set w"
    using split_dot_no_dot[of p] by (meson in_set_butlastD)
  have "[] \<notin> set (butlast (split_dot p))"
    using assms by (meson in_set_butlastD)
  hence "join_dot (butlast (split_dot p)) \<noteq> []"
    using False join_dot_empty by blast
  thus ?thesis
    using False nodot by (simp add: replace_submodule_def split_join_dot)
qed

lemma get_atoms_append:
  "get_atoms m (as @ bs) = (case get_atoms m as of Inl e \<Rightarrow> Inl e | Inr c \<Rightarrow> get_atoms c bs)"
  by (induction as arbitrary: m) (auto split: option.splits)

lemma get_atoms_replace:
  "get_atoms m as = Inr c \<Longrightarrow> get_atoms (replace_atoms m as new) as = Inr new"
  by (induction as arbitrary: m)
     (auto simp: hasattr_def update_conv' split: option.splits if_splits)

lemma replace_atoms_twice:
  "get_atoms m as = Inr c \<Longrightarrow>
   replace_atoms (replace_atoms m as new) as new' = replace_atoms m as new'"
  by (induction as arbitrary: m)
     (auto simp: hasattr_def update_conv' split: option.splits if_splits)

lemma replace_atoms_same:
  "get_atoms m as = Inr c \<Longrightarrow> replace_atoms m as c = m"
  by (induction as arbitrary: m)
     (auto simp: hasattr_def update_triv split: option.splits if_splits)

lemma setattr_restore:
  assumes "name \<notin> set (attrs parent)" and "map_of (submodules parent) name = Some old"
  shows "setattr (setattr parent name new) name old = parent"
  using assms by (cases parent) (simp add: setattr_def update_triv)

lemma hasattr_setattr: "hasattr (setattr parent name v) name"
  by (simp add: hasattr_def setattr_def update_conv')

lemma resolve_slot:
  assumes path: "[] \<notin> set (split_dot module_name)"
    and old: "get_submodule model module_name = Inr old_module"
  obtains parent where
    "get_submodule model (join_dot (butlast (split_dot module_name))) = Inr parent"
    "last (split_dot module_name) \<notin> set (attrs parent)"
    "map_of (submodules parent) (last (split_dot module_name)) = Some old_module"
proof -
  let ?atoms = "split_dot module_name"
  have ne: "module_name \<noteq> []" using path by auto
  have atoms: "?atoms = butlast ?atoms @ [last ?atoms]"
    using split_dot_nonempty[of "module_name"] by simp
  have "get_atoms model (butlast ?atoms @ [last ?atoms]) = Inr old_module"
    using old ne atoms by (simp add: get_submodule_def)
  then obtain parent where p: "get_atoms model (butlast ?atoms) = Inr parent"
    and c: "get_atoms parent [last ?atoms] = Inr old_module"
    by (auto simp: get_atoms_append split: sum.splits)
  have "last ?atoms \<notin> set (attrs parent)"
    and "map_of (submodules parent) (last ?atoms) = Some old_module"
    using c by (auto split: if_splits option.splits)
  moreover have "get_submodule model (join_dot (butlast ?atoms)) = Inr parent"
    using p get_submodule_parent[OF path, of model] by simp
  ultimately show ?thesis using that by blast
qed

lemma recover_at_slot:
  assumes path: "[] \<notin> set (split_dot module_name)"
    and parent: "get_atoms model (butlast (split_dot module_name)) = Inr parent"
    and na: "last (split_dot module_name) \<notin> set (attrs parent)"
    and bound: "map_of (submodules parent) (last (split_dot module_name)) = Some v"
    and orig: "setattr parent (last (split_dot module_name)) old_module = orig"
  shows "recover_model_inplace int_of model old_module module_name
         = (None, replace_atoms model (butlast (split_dot module_name)) orig)"
proof -
  have "hasattr parent (last (split_dot module_name))"
    using bound by (simp add: hasattr_def)
  thus ?thesis
    using parent orig get_submodule_parent[OF path, of model]
      replace_submodule_parent[OF path, of model]
    by (simp add: recover_model_inplace_def set_slot_def)
qed

text \<open>
  C4 (applying a patch with \<^verbatim>\<open>edit_model_inplace\<close> and then undoing it with
  \<^verbatim>\<open>recover_model_inplace\<close> at the same path restores the original submodule at the
  resolved slot, so a later forward pass gives the same output as the never-patched
  model): for a dotted path of non-empty names that resolves to \<open>old_module\<close>, whatever
  \<^verbatim>\<open>edit_model_inplace\<close> did (it patched the slot, or it raised), \<^verbatim>\<open>recover_model_inplace\<close>
  on the model it left succeeds and gives back the original model, so every function of
  the model and the input, the forward pass among them, gives the same value; and when the
  wrapper could be built, the edit did put it into the slot.
\<close>

theorem patch_then_recover_restores:
  assumes path: "[] \<notin> set (split_dot module_name)"
    and old: "get_submodule model module_name = Inr old_module"
  shows "recover_model_inplace int_of
           (snd (edit_model_inplace int_of model old_module module_name projection has_leftover))
           old_module module_name = (None, model)
       \<and> forward (snd (recover_model_inplace int_of
           (snd (edit_model_inplace int_of model old_module module_name projection has_leftover))
           old_module module_name)) tokens = forward model tokens
       \<and> (case new_ProjectionWrapper old_module projection has_leftover of
            Inl e \<Rightarrow>
              edit_model_inplace int_of model old_module module_name projection has_leftover
                = (Some e, model)
          | Inr new_module \<Rightarrow>
              fst (edit_model_inplace int_of model old_module module_name projection has_leftover)
                = None
              \<and> get_submodule
                  (snd (edit_model_inplace int_of model old_module module_name projection
                     has_leftover)) module_name = Inr new_module)"
proof -
  let ?atoms = "split_dot module_name"
  let ?pp = "butlast ?atoms"
  let ?name = "last ?atoms"
  let ?edit = "edit_model_inplace int_of model old_module module_name projection has_leftover"
  obtain parent where gp: "get_submodule model (join_dot ?pp) = Inr parent"
    and na: "?name \<notin> set (attrs parent)"
    and bound: "map_of (submodules parent) ?name = Some old_module"
    using resolve_slot[OF path old] by blast
  have pa: "get_atoms model ?pp = Inr parent"
    using gp get_submodule_parent[OF path, of model] by simp
  have has: "hasattr parent ?name"
    using bound by (simp add: hasattr_def)
  have ne: "module_name \<noteq> []" using path by auto
  have atoms: "?atoms = ?pp @ [?name]"
    using split_dot_nonempty[of "module_name"] by simp
  have same: "setattr parent ?name old_module = parent"
    using na bound by (cases parent) (simp add: setattr_def update_triv)
  have unpatched: "recover_model_inplace int_of model old_module module_name = (None, model)"
    using recover_at_slot[OF path pa na bound same] replace_atoms_same[OF pa] by simp
  show ?thesis
  proof (cases "new_ProjectionWrapper old_module projection has_leftover")
    case (Inl e)
    hence ed: "?edit = (Some e, model)"
      by (simp add: edit_model_inplace_def)
    show ?thesis using ed Inl unpatched by simp
  next
    case (Inr new_module)
    let ?parent' = "setattr parent ?name new_module"
    let ?model' = "replace_atoms model ?pp ?parent'"
    have ed: "?edit = (None, ?model')"
      using Inr gp has replace_submodule_parent[OF path, of model]
      by (simp add: edit_model_inplace_def set_slot_def)
    have pa': "get_atoms ?model' ?pp = Inr ?parent'"
      using get_atoms_replace[OF pa] .
    have na': "?name \<notin> set (attrs ?parent')"
      by (simp add: setattr_def)
    have bound': "map_of (submodules ?parent') ?name = Some new_module"
      by (simp add: setattr_def update_conv')
    have undo: "setattr ?parent' ?name old_module = parent"
      using setattr_restore[OF na bound] .
    have "recover_model_inplace int_of ?model' old_module module_name
          = (None, replace_atoms ?model' ?pp parent)"
      using recover_at_slot[OF path pa' na' bound' undo] .
    also have "replace_atoms ?model' ?pp parent = model"
      using replace_atoms_twice[OF pa] replace_atoms_same[OF pa] by simp
    finally have rec: "recover_model_inplace int_of ?model' old_module module_name = (None, model)" .
    have "get_atoms ?model' (?pp @ [?name]) = Inr new_module"
      using pa' na' bound' by (simp add: get_atoms_append hasattr_def)
    hence slot: "get_submodule ?model' module_name = Inr new_module"
      using atoms ne by (simp add: get_submodule_def)
    show ?thesis using ed Inr rec slot by simp
  qed
qed

text \<open>
  The theorem at the path \<^verbatim>\<open>h.0\<close> of the model whose list \<^verbatim>\<open>h\<close> holds an already wrapped
  block: the edit replaces the block by a new wrapper around the same inner module, and
  the recovery gives the model back.
\<close>

theorem patch_then_recover_restores_witness:
  "[] \<notin> set (split_dot ''h.0'')
   \<and> get_submodule (model_of_block (wrapped_block 7 True)) ''h.0'' = Inr (wrapped_block 7 True)
   \<and> edit_model_inplace (\<lambda>s. None) (model_of_block (wrapped_block 7 True))
         (wrapped_block 7 True) ''h.0'' 9 False
       = (None, model_of_block (wrapped_block 9 False))
   \<and> model_of_block (wrapped_block 9 False) \<noteq> model_of_block (wrapped_block 7 True)
   \<and> recover_model_inplace (\<lambda>s. None) (model_of_block (wrapped_block 9 False))
         (wrapped_block 7 True) ''h.0''
       = (None, model_of_block (wrapped_block 7 True))"
proof -
  have p: "[] \<notin> set (split_dot ''h.0'')" by simp
  have g: "get_submodule (model_of_block (wrapped_block 7 True)) ''h.0'' = Inr (wrapped_block 7 True)"
    by (simp add: get_submodule_def hasattr_def model_of_block_def)
  have e: "edit_model_inplace (\<lambda>s. None) (model_of_block (wrapped_block 7 True))
         (wrapped_block 7 True) ''h.0'' 9 False
       = (None, model_of_block (wrapped_block 9 False))"
    by (simp add: edit_model_inplace_def new_ProjectionWrapper_def get_submodule_def
        replace_submodule_def hasattr_def set_slot_def setattr_def model_of_block_def
        wrapped_block_def)
  have n: "model_of_block (wrapped_block 9 False) \<noteq> model_of_block (wrapped_block 7 True)"
    by (simp add: model_of_block_def wrapped_block_def)
  show ?thesis
    using p g e n
      patch_then_recover_restores[OF p g, where int_of = "\<lambda>s. None" and projection = 9
        and has_leftover = False and forward = "\<lambda>m t. m" and tokens = "()"]
    by simp
qed

text \<open>
  C10 (for every model and every submodule that carries no \<^verbatim>\<open>wrapped_module\<close> attribute,
  \<^verbatim>\<open>edit_model_inplace\<close> raises \<^verbatim>\<open>AttributeError\<close> while it builds the
  \<^verbatim>\<open>ProjectionWrapper\<close>, before any slot is replaced, and leaves the model unchanged): for
  every path, projection and flag.
\<close>

theorem edit_unwrapped_module_raises:
  assumes "\<not> hasattr old_module ''wrapped_module''"
  shows "new_ProjectionWrapper old_module projection has_leftover = Inl AttributeError
       \<and> edit_model_inplace int_of model old_module module_name projection has_leftover
           = (Some AttributeError, model)"
  using assms
  by (auto simp: edit_model_inplace_def new_ProjectionWrapper_def hasattr_def split: option.splits)

text \<open>The theorem at a plain block of the list \<^verbatim>\<open>h\<close> of a model, and its path \<^verbatim>\<open>h.0\<close>.\<close>

theorem edit_unwrapped_module_raises_witness:
  "\<not> hasattr plain_block ''wrapped_module''
   \<and> get_submodule (model_of_block plain_block) ''h.0'' = Inr plain_block
   \<and> edit_model_inplace (\<lambda>s. None) (model_of_block plain_block) plain_block ''h.0'' 9 False
       = (Some AttributeError, model_of_block plain_block)"
proof -
  have h: "\<not> hasattr plain_block ''wrapped_module''"
    by (simp add: hasattr_def plain_block_def)
  have g: "get_submodule (model_of_block plain_block) ''h.0'' = Inr plain_block"
    by (simp add: get_submodule_def hasattr_def model_of_block_def)
  show ?thesis
    using h g
      edit_unwrapped_module_raises[OF h, of 9 False "\<lambda>s. None" "model_of_block plain_block" "''h.0''"]
    by simp
qed

section \<open>Results: forward hooks\<close>

lemma forward_hooks_remove:
  "forward_hooks (remove (m, i) st) = (forward_hooks st)(m := AList.delete i (forward_hooks st m))"
  by (simp add: remove_def)

lemma remove_commute: "remove a (remove b st) = remove b (remove a st)"
proof (cases "fst a = fst b")
  case True
  then show ?thesis by (simp add: remove_def delete_twist)
next
  case False
  then show ?thesis by (simp add: remove_def fun_upd_twist)
qed

lemma remove_all_remove: "remove_all hs (remove h st) = remove h (remove_all hs st)"
proof (induction hs arbitrary: st)
  case Nil
  show ?case by simp
next
  case (Cons a hs)
  have "remove_all (a # hs) (remove h st) = remove_all hs (remove h (remove a st))"
    by (simp add: remove_commute)
  also have "\<dots> = remove h (remove_all hs (remove a st))"
    by (rule Cons.IH)
  finally show ?case by simp
qed

lemma ids_below_next_register:
  assumes "ids_below_next st"
  shows "ids_below_next (snd (register_forward_hook m h st))"
proof -
  have "i < Suc (next_id st)"
    if "i \<in> fst ` set (if m' = m then AList.update (next_id st) h (forward_hooks st m)
                          else forward_hooks st m')" for i m'
  proof (cases "m' = m")
    case True
    hence "i \<in> insert (next_id st) (fst ` set (forward_hooks st m))"
      using that by (simp add: dom_update)
    thus ?thesis using assms by (auto simp: ids_below_next_def less_Suc_eq)
  next
    case False
    thus ?thesis using that assms by (auto simp: ids_below_next_def less_Suc_eq)
  qed
  thus ?thesis
    by (simp add: ids_below_next_def register_forward_hook_def with_hook_def)
qed

lemma register_then_remove:
  assumes "ids_below_next st"
  shows "(forward_hooks (snd (register_forward_hook m h st)))
           (m := AList.delete (next_id st) (forward_hooks (snd (register_forward_hook m h st)) m))
         = forward_hooks st"
proof -
  have "\<forall>i \<in> fst ` set (forward_hooks st m). i < next_id st"
    using assms by (simp add: ids_below_next_def)
  hence "next_id st \<notin> fst ` set (forward_hooks st m)"
    by (meson less_irrefl)
  hence "AList.delete (next_id st) (AList.update (next_id st) h (forward_hooks st m))
         = forward_hooks st m"
    by (simp add: delete_update_same)
  thus ?thesis
    by (simp add: register_forward_hook_def with_hook_def)
qed

lemma hooks_restored:
  "ids_below_next st \<Longrightarrow>
   forward_hooks (remove_all (fst (register_all hs st)) (snd (register_all hs st)))
   = forward_hooks st"
proof (induction hs arbitrary: st)
  case Nil
  show ?case by simp
next
  case (Cons a hs)
  obtain m h where a: "a = (m, h)" by (cases a)
  let ?st1 = "snd (register_forward_hook m h st)"
  let ?H = "fst (register_all hs ?st1)"
  let ?S = "snd (register_all hs ?st1)"
  have reg: "register_all (a # hs) st = ((m, next_id st) # ?H, ?S)"
    by (simp add: a register_forward_hook_def split_beta)
  have ih: "forward_hooks (remove_all ?H ?S) = forward_hooks ?st1"
    using Cons.IH[OF ids_below_next_register[OF Cons.prems]] .
  have "forward_hooks (remove_all (fst (register_all (a # hs) st)) (snd (register_all (a # hs) st)))
        = forward_hooks (remove (m, next_id st) (remove_all ?H ?S))"
    by (simp add: reg remove_all_remove)
  also have "\<dots> = (forward_hooks ?st1)(m := AList.delete (next_id st) (forward_hooks ?st1 m))"
    by (simp add: forward_hooks_remove ih)
  also have "\<dots> = forward_hooks st"
    using register_then_remove[OF Cons.prems] .
  finally show ?case .
qed

lemma get_activations_hooks:
  "ids_below_next st \<Longrightarrow>
   forward_hooks (snd (get_activations tokens model modules operation st)) = forward_hooks st"
  using hooks_restored[of st "map (\<lambda>m. (m, Capture operation)) modules"]
  by (simp add: get_activations_def split_beta Let_def split: sum.splits)

lemma run_and_modify_hooks:
  "ids_below_next st \<Longrightarrow>
   forward_hooks (snd (run_and_modify tokens model modification_fns st)) = forward_hooks st"
  using hooks_restored[of st "map (\<lambda>(m, f). (m, Modify f)) modification_fns"]
  by (simp add: run_and_modify_def split_beta Let_def)

text \<open>
  C2 (\<^verbatim>\<open>get_activations\<close> and \<^verbatim>\<open>run_and_modify\<close> remove every forward hook they registered
  before control returns, when the forward pass succeeds and when it raises, and an
  exception of the forward pass reaches the caller unchanged): after either call the
  hooks of every module are those from before the call, whatever the model does; the
  result of \<^verbatim>\<open>run_and_modify\<close> is the result or the exception of the forward pass under the
  registered hooks, and \<^verbatim>\<open>get_activations\<close> raises the exception of its forward pass.
\<close>

theorem hooks_removed_on_every_path:
  assumes "ids_below_next st"
  shows "forward_hooks (snd (get_activations tokens model modules operation st)) = forward_hooks st
       \<and> forward_hooks (snd (run_and_modify tokens model modification_fns st)) = forward_hooks st
       \<and> (\<forall>e. fst (model (forward_hooks (snd (register_all
                  (map (\<lambda>m. (m, Capture operation)) modules) st))) tokens (\<lambda>m. None)) = Inl e
              \<longrightarrow> fst (get_activations tokens model modules operation st) = Inl e)
       \<and> (\<forall>out. fst (model (forward_hooks (snd (register_all
                  (map (\<lambda>m. (m, Capture operation)) modules) st))) tokens (\<lambda>m. None)) = Inr out
              \<longrightarrow> (\<exists>activations.
                     fst (get_activations tokens model modules operation st) = Inr activations))
       \<and> fst (run_and_modify tokens model modification_fns st)
           = fst (model (forward_hooks (snd (register_all
                  (map (\<lambda>(m, f). (m, Modify f)) modification_fns) st))) tokens (\<lambda>m. None))"
proof -
  have a: "forward_hooks (snd (get_activations tokens model modules operation st)) = forward_hooks st"
    using assms by (rule get_activations_hooks)
  have b: "forward_hooks (snd (run_and_modify tokens model modification_fns st)) = forward_hooks st"
    using assms by (rule run_and_modify_hooks)
  have c: "fst (get_activations tokens model modules operation st) = Inl e"
    if "fst (model (forward_hooks (snd (register_all
          (map (\<lambda>m. (m, Capture operation)) modules) st))) tokens (\<lambda>m. None)) = Inl e" for e
    using that by (simp add: get_activations_def split_beta Let_def split: sum.splits)
  have d: "\<exists>activations. fst (get_activations tokens model modules operation st) = Inr activations"
    if "fst (model (forward_hooks (snd (register_all
          (map (\<lambda>m. (m, Capture operation)) modules) st))) tokens (\<lambda>m. None)) = Inr out" for out
    using that by (simp add: get_activations_def split_beta Let_def split: sum.splits)
  have e: "fst (run_and_modify tokens model modification_fns st)
           = fst (model (forward_hooks (snd (register_all
                  (map (\<lambda>(m, f). (m, Modify f)) modification_fns) st))) tokens (\<lambda>m. None))"
    by (simp add: run_and_modify_def split_beta Let_def)
  show ?thesis using a b c d e by blast
qed

text \<open>
  The theorem at a model whose second module raises, with a hook registered on module 0
  before the calls: both calls raise the exception of the module and leave the hooks as
  they were.
\<close>

theorem hooks_removed_on_every_path_witness:
  "ids_below_next one_hook
   \<and> fst (get_activations (Tensor [[3, 4]]) (sequential failing_net) [0, 1] Inr one_hook)
       = Inl (ModuleError 7)
   \<and> forward_hooks (snd (get_activations (Tensor [[3, 4]]) (sequential failing_net) [0, 1] Inr
         one_hook)) = forward_hooks one_hook
   \<and> fst (run_and_modify (Tensor [[3, 4]]) (sequential failing_net)
         [(0, \<lambda>m inp out. Inr (Some out))] one_hook) = Inl (ModuleError 7)
   \<and> forward_hooks (snd (run_and_modify (Tensor [[3, 4]]) (sequential failing_net)
         [(0, \<lambda>m inp out. Inr (Some out))] one_hook)) = forward_hooks one_hook
   \<and> forward_hooks (snd (get_activations (Tensor [[3, 4]]) (sequential identity_net) [0, 1] Inr
         one_hook)) = forward_hooks one_hook"
proof -
  have i: "ids_below_next one_hook"
    by (simp add: ids_below_next_def one_hook_def)
  have g: "fst (get_activations (Tensor [[3, 4]]) (sequential failing_net) [0, 1] Inr one_hook)
       = Inl (ModuleError 7)"
    by (simp add: get_activations_def register_forward_hook_def with_hook_def sequential_def
        failing_net_def one_hook_def first_of_def split_beta Let_def)
  have r: "fst (run_and_modify (Tensor [[3, 4]]) (sequential failing_net)
         [(0, \<lambda>m inp out. Inr (Some out))] one_hook) = Inl (ModuleError 7)"
    by (simp add: run_and_modify_def register_forward_hook_def with_hook_def sequential_def
        failing_net_def one_hook_def split_beta Let_def)
  show ?thesis
    using i g r
      hooks_removed_on_every_path[OF i, of "Tensor [[3, 4]]" "sequential failing_net" "[0, 1]" Inr
        "[(0, \<lambda>m inp out. Inr (Some out))]"]
      hooks_removed_on_every_path[OF i, of "Tensor [[3, 4]]" "sequential identity_net" "[0, 1]" Inr
        "[]"]
    by simp
qed

section \<open>Results: the causal-intervention probe\<close>

lemma capture_run:
  assumes "hooks = (\<lambda>m. [])(layer := [(i, Capture (index0 ops))])"
  shows "captured_at ops net layer x (activations layer)
         = (case run_modules hooks net x activations of
              (Inl e, activations') \<Rightarrow> Inl e
            | (Inr out, activations') \<Rightarrow> Inr (activations' layer))"
  using assms
proof (induction net arbitrary: x activations)
  case Nil
  show ?case by simp
next
  case (Cons a net)
  obtain m forward where a: "a = (m, forward)" by (cases a)
  show ?case
  proof (cases "forward x")
    case (Inl e)
    then show ?thesis by (simp add: a)
  next
    case (Inr y)
    show ?thesis
    proof (cases "m = layer")
      case False
      then show ?thesis
        using Inr Cons.IH[OF Cons.prems, of y activations] by (simp add: a Cons.prems)
    next
      case True
      show ?thesis
      proof (cases "first_of y")
        case (Inl e)
        then show ?thesis using Inr True by (simp add: a Cons.prems)
      next
        case t: (Inr t)
        show ?thesis
        proof (cases "index0 ops t")
          case (Inl e)
          then show ?thesis using Inr True t by (simp add: a Cons.prems)
        next
          case v: (Inr v)
          then show ?thesis
            using Inr True t Cons.IH[OF Cons.prems, of y "activations(layer := Some v)"]
            by (simp add: a Cons.prems fun_upd_def)
        qed
      qed
    qed
  qed
qed

lemma modify_run:
  assumes "hooks = (\<lambda>m. [])(layer := [(i, Modify f)])"
    and "\<And>m inp out. f m inp out = (case g out of Inl e \<Rightarrow> Inl e | Inr v \<Rightarrow> Inr (Some v))"
  shows "fst (run_modules hooks net x activations) = run_replacing net layer g x"
  using assms(1)
proof (induction net arbitrary: x)
  case Nil
  show ?case by simp
next
  case (Cons a net)
  obtain m forward where a: "a = (m, forward)" by (cases a)
  show ?case
  proof (cases "forward x")
    case (Inl e)
    then show ?thesis by (simp add: a)
  next
    case (Inr y)
    show ?thesis
    proof (cases "m = layer")
      case False
      then show ?thesis
        using Inr Cons.IH[OF Cons.prems, of y] by (simp add: a Cons.prems)
    next
      case True
      show ?thesis
      proof (cases "g y")
        case (Inl e)
        then show ?thesis using Inr True by (simp add: a Cons.prems assms(2))
      next
        case v: (Inr v)
        then show ?thesis
          using Inr True Cons.IH[OF Cons.prems, of v] by (simp add: a Cons.prems assms(2))
      qed
    qed
  qed
qed

lemma mix_transplant:
  "mix ops projection_fn dirs stored additional m inp out
   = (case transplant ops projection_fn dirs stored additional out of
        Inl e \<Rightarrow> Inl e
      | Inr v \<Rightarrow> Inr (Some v))"
  by (simp add: mix_def transplant_def split: sum.splits prod.splits)

lemma get_activations_sequential:
  assumes "forward_hooks st = (\<lambda>m. [])"
  shows "fst (get_activations inp (sequential net) [layer] (index0 ops) st)
         = (case captured_at ops net layer inp None of
              Inl e \<Rightarrow> Inl e
            | Inr a \<Rightarrow> Inr (snd (run_modules
                  ((\<lambda>m. [])(layer := [(next_id st, Capture (index0 ops))])) net inp (\<lambda>m. None))))"
    and "fst (get_activations inp (sequential net) [layer] (index0 ops) st) = Inr activations
         \<Longrightarrow> captured_at ops net layer inp None = Inr (activations layer)"
proof -
  let ?hooks = "(\<lambda>m. [])(layer := [(next_id st, Capture (index0 ops))])"
  have c: "captured_at ops net layer inp None
         = (case run_modules ?hooks net inp (\<lambda>m. None) of
              (Inl e, activations') \<Rightarrow> Inl e
            | (Inr out, activations') \<Rightarrow> Inr (activations' layer))"
    using capture_run[of ?hooks layer "next_id st" ops net inp "\<lambda>m. None"] by simp
  have g: "fst (get_activations inp (sequential net) [layer] (index0 ops) st)
         = (case fst (run_modules ?hooks net inp (\<lambda>m. None)) of
              Inl e \<Rightarrow> Inl e
            | Inr out \<Rightarrow> Inr (snd (run_modules ?hooks net inp (\<lambda>m. None))))"
    using assms
    by (simp add: get_activations_def register_forward_hook_def with_hook_def sequential_def
        split_beta Let_def split: sum.splits)
  show "fst (get_activations inp (sequential net) [layer] (index0 ops) st)
         = (case captured_at ops net layer inp None of
              Inl e \<Rightarrow> Inl e
            | Inr a \<Rightarrow> Inr (snd (run_modules ?hooks net inp (\<lambda>m. None))))"
    using c g by (simp add: split_beta split: sum.splits)
  show "captured_at ops net layer inp None = Inr (activations layer)"
    if "fst (get_activations inp (sequential net) [layer] (index0 ops) st) = Inr activations"
    using that c g by (simp add: split_beta split: sum.splits)
qed

lemma run_and_modify_sequential:
  assumes "forward_hooks st = (\<lambda>m. [])"
    and "\<And>m inp out. f m inp out = (case g out of Inl e \<Rightarrow> Inl e | Inr v \<Rightarrow> Inr (Some v))"
  shows "fst (run_and_modify inp (sequential net) [(layer, f)] st) = run_replacing net layer g inp"
proof -
  have "fst (run_and_modify inp (sequential net) [(layer, f)] st)
        = fst (run_modules ((\<lambda>m. [])(layer := [(next_id st, Modify f)])) net inp (\<lambda>m. None))"
    using assms(1)
    by (simp add: run_and_modify_def register_forward_hook_def with_hook_def sequential_def
        split_beta Let_def)
  thus ?thesis
    using modify_run[OF refl assms(2)] by simp
qed

lemma matrix_ops_simps:
  "t_rows matrix_ops = (\<lambda>X. Some (map (\<lambda>x. [x]) X))"
  "t_add matrix_ops = broadcast2 vadd"
  "t_sub matrix_ops = broadcast2 vsub"
  by (simp_all add: matrix_ops_def)

lemma no_hooks_ids: "forward_hooks st = (\<lambda>m. []) \<Longrightarrow> ids_below_next st"
  by (simp add: ids_below_next_def)

text \<open>
  For a model that runs its modules in sequence and has no other hook, the two passes of
  the probe have a reading without hooks: the activation captured at the layer, and the
  pass in which the output \<open>(y, rest)\<close> of the layer is replaced by
  \<open>(projection_fn(y, dirs) + stored + additional, rest)\<close>.
\<close>

lemma frankenstein_sequential:
  assumes "forward_hooks st = (\<lambda>m. [])"
  shows "fst (create_frankenstein ops dirs (sequential net) layer additional projection_fn
               inp1 inp2 st)
         = (case captured_at ops net layer inp1 None of
              Inl e \<Rightarrow> Inl e
            | Inr None \<Rightarrow> Inl KeyError
            | Inr (Some act1) \<Rightarrow>
                (case projection_fn act1 dirs of
                   Inl e \<Rightarrow> Inl e
                 | Inr p \<Rightarrow>
                     run_replacing net layer
                       (transplant ops projection_fn dirs (t_sub ops act1 p) additional) inp2))
       \<and> forward_hooks (snd (create_frankenstein ops dirs (sequential net) layer additional
               projection_fn inp1 inp2 st)) = forward_hooks st"
proof -
  let ?ga = "get_activations inp1 (sequential net) [layer] (index0 ops) st"
  have h1: "forward_hooks (snd ?ga) = (\<lambda>m. [])"
    using get_activations_hooks[OF no_hooks_ids[OF assms]] assms by simp
  show ?thesis
  proof (cases "fst ?ga")
    case (Inl e)
    hence "captured_at ops net layer inp1 None = Inl e"
      using get_activations_sequential(1)[OF assms, of inp1 net layer ops]
      by (simp split: sum.splits)
    moreover have "create_frankenstein ops dirs (sequential net) layer additional projection_fn
        inp1 inp2 st = (Inl e, snd ?ga)"
      using Inl by (simp add: create_frankenstein_def split_beta split: prod.splits)
    ultimately show ?thesis using h1 assms by simp
  next
    case (Inr activations)
    have cap: "captured_at ops net layer inp1 None = Inr (activations layer)"
      using get_activations_sequential(2)[OF assms Inr] .
    show ?thesis
    proof (cases "activations layer")
      case None
      have "create_frankenstein ops dirs (sequential net) layer additional projection_fn
          inp1 inp2 st = (Inl KeyError, snd ?ga)"
        using Inr None by (simp add: create_frankenstein_def split_beta split: prod.splits)
      thus ?thesis using cap None h1 assms by simp
    next
      case (Some act1)
      show ?thesis
      proof (cases "projection_fn act1 dirs")
        case (Inl e)
        have "create_frankenstein ops dirs (sequential net) layer additional projection_fn
            inp1 inp2 st = (Inl e, snd ?ga)"
          using Inr Some Inl
          by (simp add: create_frankenstein_def proj_act1_def split_beta split: prod.splits)
        thus ?thesis using cap Some Inl h1 assms by simp
      next
        case p: (Inr p)
        let ?fs = "[(layer, mix ops projection_fn dirs (t_sub ops act1 p) additional)]"
        have cf: "create_frankenstein ops dirs (sequential net) layer additional projection_fn
            inp1 inp2 st = run_and_modify inp2 (sequential net) ?fs (snd ?ga)"
          using Inr Some p
          by (simp add: create_frankenstein_def proj_act1_def split_beta split: prod.splits)
        have out: "fst (run_and_modify inp2 (sequential net) ?fs (snd ?ga))
            = run_replacing net layer
                (transplant ops projection_fn dirs (t_sub ops act1 p) additional) inp2"
          by (rule run_and_modify_sequential[OF h1]) (rule mix_transplant)
        have hooks: "forward_hooks (snd (run_and_modify inp2 (sequential net) ?fs (snd ?ga)))
            = (\<lambda>m. [])"
          using run_and_modify_hooks[OF no_hooks_ids[OF h1]] h1 by simp
        show ?thesis using cf out hooks cap Some p assms by simp
      qed
    qed
  qed
qed








section \<open>Results: the confusion score\<close>

lemma and_then_simps:
  "and_then (Inl e) f = Inl e"
  "and_then (Inr v) f = f v"
  by (simp_all add: and_then_def)

lemma margin_log_softmax: "margin (log_softmax row) c w = margin row c w"
  by (simp add: margin_def nth_err_def log_softmax_def and_then_def)

lemma nth_err_error: "nth_err xs k = Inl e \<Longrightarrow> e = IndexError"
  by (simp add: nth_err_def split: if_splits)

lemma margin_error: "margin out_mixed c w = Inl e \<Longrightarrow> e = IndexError"
  by (auto simp: margin_def and_then_def dest: nth_err_error split: sum.splits)

text \<open>The four margins of a row-wise model, in the order of the matrix \<^verbatim>\<open>res\<close>.\<close>

lemma measure_confusions_grad_rowwise:
  "measure_confusions_grad tokenizer encode t (rowwise f)
   = (if f (tokenizer (prompt (positive t))) (tokenizer (prompt (positive t))) = []
         \<or> f (tokenizer (prompt (positive t))) (tokenizer (prompt (negative t))) = []
         \<or> f (tokenizer (prompt (negative t))) (tokenizer (prompt (positive t))) = []
         \<or> f (tokenizer (prompt (negative t))) (tokenizer (prompt (negative t))) = []
      then Inl IndexError
      else
        and_then (nth_err (encode (answer (positive t))) 0) (\<lambda>c0.
        and_then (nth_err (encode (answer (negative t))) 0) (\<lambda>w0.
        and_then (margin (last (f (tokenizer (prompt (positive t)))
                                  (tokenizer (prompt (positive t))))) c0 w0) (\<lambda>res00.
        and_then (margin (last (f (tokenizer (prompt (positive t)))
                                  (tokenizer (prompt (negative t))))) c0 w0) (\<lambda>res01.
        and_then (margin (last (f (tokenizer (prompt (negative t)))
                                  (tokenizer (prompt (positive t))))) w0 c0) (\<lambda>res10.
        and_then (margin (last (f (tokenizer (prompt (negative t)))
                                  (tokenizer (prompt (negative t))))) w0 c0) (\<lambda>res11.
        Inr (\<bar>res00 - res01\<bar> + \<bar>res11 - res10\<bar>))))))))"
proof -
  have n: "nth_err [a, b, c, d] 0 = Inr a" "nth_err [a, b, c, d] (Suc 0) = Inr b"
    "nth_err [a, b, c, d] 2 = Inr c" "nth_err [a, b, c, d] 3 = Inr d" for a b c d :: "real list"
    by (simp_all add: nth_err_def)
  show ?thesis
    by (simp add: measure_confusions_grad_def rowwise_def last_position_def n and_then_simps
        margin_log_softmax Let_def)
qed

lemma swap_margins:
  fixes A B :: "error + nat" and m00 m01 m10 m11 :: "nat \<Rightarrow> nat \<Rightarrow> error + real"
  assumes "\<And>c w e. m00 c w = Inl e \<Longrightarrow> e = IndexError"
    and "\<And>c w e. m01 c w = Inl e \<Longrightarrow> e = IndexError"
    and "\<And>c w e. m10 c w = Inl e \<Longrightarrow> e = IndexError"
    and "\<And>c w e. m11 c w = Inl e \<Longrightarrow> e = IndexError"
    and "\<And>e. A = Inl e \<Longrightarrow> e = IndexError"
    and "\<And>e. B = Inl e \<Longrightarrow> e = IndexError"
  shows "and_then B (\<lambda>c0. and_then A (\<lambda>w0.
           and_then (m11 c0 w0) (\<lambda>res00. and_then (m10 c0 w0) (\<lambda>res01.
           and_then (m01 w0 c0) (\<lambda>res10. and_then (m00 w0 c0) (\<lambda>res11.
           Inr (\<bar>res00 - res01\<bar> + \<bar>res11 - res10\<bar>)))))))
       = and_then A (\<lambda>c0. and_then B (\<lambda>w0.
           and_then (m00 c0 w0) (\<lambda>res00. and_then (m01 c0 w0) (\<lambda>res01.
           and_then (m10 w0 c0) (\<lambda>res10. and_then (m11 w0 c0) (\<lambda>res11.
           Inr (\<bar>res00 - res01\<bar> + \<bar>res11 - res10\<bar>)))))))"
proof (cases A)
  case (Inl e)
  hence "A = Inl IndexError" using assms(5) by blast
  thus ?thesis using assms(6) by (cases B) (auto simp: and_then_simps)
next
  case a: (Inr c0)
  show ?thesis
  proof (cases B)
    case (Inl e)
    hence "B = Inl IndexError" using assms(6) by blast
    thus ?thesis using a by (simp add: and_then_simps)
  next
    case b: (Inr w0)
    have e00: "m00 c0 w0 = Inl IndexError \<or> (\<exists>r. m00 c0 w0 = Inr r)"
      using assms(1) by (cases "m00 c0 w0") auto
    have e01: "m01 c0 w0 = Inl IndexError \<or> (\<exists>r. m01 c0 w0 = Inr r)"
      using assms(2) by (cases "m01 c0 w0") auto
    have e10: "m10 w0 c0 = Inl IndexError \<or> (\<exists>r. m10 w0 c0 = Inr r)"
      using assms(3) by (cases "m10 w0 c0") auto
    have e11: "m11 w0 c0 = Inl IndexError \<or> (\<exists>r. m11 w0 c0 = Inr r)"
      using assms(4) by (cases "m11 w0 c0") auto
    show ?thesis
      using e00 e01 e10 e11 by (auto simp: a b and_then_simps)
  qed
qed

text \<open>
  The formula of the score is symmetric in the two sides: for a model that computes each
  row of its output from the same row of its two input batches, exchanging the labels
  leaves the value unchanged, an exception included.
\<close>

lemma measure_confusions_relabel_rowwise:
  "measure_confusions tokenizer encode (swap_labels t) (rowwise f)
     = measure_confusions tokenizer encode t (rowwise f)
   \<and> measure_confusions_grad tokenizer encode (swap_labels t) (rowwise f)
     = measure_confusions_grad tokenizer encode t (rowwise f)"
proof -
  let ?P = "tokenizer (prompt (positive t))"
  let ?N = "tokenizer (prompt (negative t))"
  have "measure_confusions_grad tokenizer encode (swap_labels t) (rowwise f)
     = measure_confusions_grad tokenizer encode t (rowwise f)"
  proof (cases "f ?P ?P = [] \<or> f ?P ?N = [] \<or> f ?N ?P = [] \<or> f ?N ?N = []")
    case True
    then show ?thesis
      by (auto simp: measure_confusions_grad_rowwise swap_labels_def)
  next
    case False
    have "measure_confusions_grad tokenizer encode (swap_labels t) (rowwise f)
        = and_then (nth_err (encode (answer (negative t))) 0) (\<lambda>c0.
          and_then (nth_err (encode (answer (positive t))) 0) (\<lambda>w0.
          and_then (margin (last (f ?N ?N)) c0 w0) (\<lambda>res00.
          and_then (margin (last (f ?N ?P)) c0 w0) (\<lambda>res01.
          and_then (margin (last (f ?P ?N)) w0 c0) (\<lambda>res10.
          and_then (margin (last (f ?P ?P)) w0 c0) (\<lambda>res11.
          Inr (\<bar>res00 - res01\<bar> + \<bar>res11 - res10\<bar>)))))))"
      using False by (simp add: measure_confusions_grad_rowwise swap_labels_def)
    also have "\<dots>
        = and_then (nth_err (encode (answer (positive t))) 0) (\<lambda>c0.
          and_then (nth_err (encode (answer (negative t))) 0) (\<lambda>w0.
          and_then (margin (last (f ?P ?P)) c0 w0) (\<lambda>res00.
          and_then (margin (last (f ?P ?N)) c0 w0) (\<lambda>res01.
          and_then (margin (last (f ?N ?P)) w0 c0) (\<lambda>res10.
          and_then (margin (last (f ?N ?N)) w0 c0) (\<lambda>res11.
          Inr (\<bar>res00 - res01\<bar> + \<bar>res11 - res10\<bar>)))))))"
      by (rule swap_margins) (auto dest: margin_error nth_err_error)
    also have "\<dots> = measure_confusions_grad tokenizer encode t (rowwise f)"
      using False by (simp add: measure_confusions_grad_rowwise)
    finally show ?thesis .
  qed
  thus ?thesis by (simp add: measure_confusions_def)
qed

lemma probe_model_positive_first:
  "probe_model [[2, 1], [2, 1], [0, 3], [0, 3]] [[2, 1], [0, 3], [2, 1], [0, 3]]
   = Inr [[[2, 0]], [[6, 0]], [[2, 0]], [[6, 0]]]"
proof -
  have p: "project [[2, 1]] [[1, 0]] 1 = Inr [[0, 1]]"
    by (simp add: project_def same_width_def project_row_def dot_def vsub_def vscale_def vadd_def)
  have q: "project [[2, 1], [0, 3], [2, 1], [0, 3]] [[1, 0]] 1 = Inr [[0, 1], [0, 3], [0, 1], [0, 3]]"
    by (simp add: project_def same_width_def project_row_def dot_def vsub_def vscale_def vadd_def)
  show ?thesis
    by (simp add: probe_model_def create_frankenstein_def get_activations_def run_and_modify_def
        register_forward_hook_def with_hook_def remove_def sequential_def product_net_def
        no_hooks_def first_of_def index0_def unpack_def mix_def proj_act1_def p q
        matrix_ops_simps broadcast2_def vadd_def vsub_def split_beta Let_def)
qed

lemma probe_model_negative_first:
  "probe_model [[0, 3], [0, 3], [2, 1], [2, 1]] [[0, 3], [2, 1], [0, 3], [2, 1]]
   = Inr [[[0, 0]], [[0, 0]], [[0, 0]], [[0, 0]]]"
proof -
  have p: "project [[0, 3]] [[1, 0]] 1 = Inr [[0, 3]]"
    by (simp add: project_def same_width_def project_row_def dot_def vsub_def vscale_def vadd_def)
  have q: "project [[0, 3], [2, 1], [0, 3], [2, 1]] [[1, 0]] 1 = Inr [[0, 3], [0, 1], [0, 3], [0, 1]]"
    by (simp add: project_def same_width_def project_row_def dot_def vsub_def vscale_def vadd_def)
  show ?thesis
    by (simp add: probe_model_def create_frankenstein_def get_activations_def run_and_modify_def
        register_forward_hook_def with_hook_def remove_def sequential_def product_net_def
        no_hooks_def first_of_def index0_def unpack_def mix_def proj_act1_def p q
        matrix_ops_simps broadcast2_def vadd_def vsub_def split_beta Let_def)
qed

lemma probe_model_single_pairs:
  "probe_model [[0, 3]] [[2, 1]] = Inr [[[0, 0]]]"
  "probe_model [[0, 3]] [[0, 3]] = Inr [[[0, 0]]]"
proof -
  have p: "project [[0, 3]] [[1, 0]] 1 = Inr [[0, 3]]"
    by (simp add: project_def same_width_def project_row_def dot_def vsub_def vscale_def vadd_def)
  have q: "project [[2, 1]] [[1, 0]] 1 = Inr [[0, 1]]"
    by (simp add: project_def same_width_def project_row_def dot_def vsub_def vscale_def vadd_def)
  show "probe_model [[0, 3]] [[2, 1]] = Inr [[[0, 0]]]"
    by (simp add: probe_model_def create_frankenstein_def get_activations_def run_and_modify_def
        register_forward_hook_def with_hook_def remove_def sequential_def product_net_def
        no_hooks_def first_of_def index0_def unpack_def mix_def proj_act1_def p q
        matrix_ops_simps broadcast2_def vadd_def vsub_def split_beta Let_def)
  show "probe_model [[0, 3]] [[0, 3]] = Inr [[[0, 0]]]"
    by (simp add: probe_model_def create_frankenstein_def get_activations_def run_and_modify_def
        register_forward_hook_def with_hook_def remove_def sequential_def product_net_def
        no_hooks_def first_of_def index0_def unpack_def mix_def proj_act1_def p
        matrix_ops_simps broadcast2_def vadd_def vsub_def split_beta Let_def)
qed

text \<open>
  C6 (exchanging which side of a test is labelled positive and which negative leaves the
  value of \<^verbatim>\<open>measure_confusions\<close> unchanged): evaluated at the test with the prompts
  \<^verbatim>\<open>p\<close>, \<^verbatim>\<open>n\<close> and the answers \<^verbatim>\<open>a\<close> (token 0), \<^verbatim>\<open>b\<close> (token 1), with the probe built by
  \<^verbatim>\<open>create_frankenstein\<close> as the model. The score is 8, and 0 once the labels are
  exchanged. The batch that \<^verbatim>\<open>measure_confusions_grad\<close> builds pairs the rows (p, p),
  (p, n), (n, p), (n, n); the probe captures the first row of the first batch only, so
  the rows 2 and 3 of its output are those of (p, p) and (p, n), not what the probe
  returns on the pairs (n, p) and (n, n) alone.
\<close>

theorem measure_confusions_probe_not_invariant:
  "measure_confusions example_tokenizer example_encode example_test probe_model = Inr 8
   \<and> measure_confusions example_tokenizer example_encode (swap_labels example_test) probe_model
       = Inr 0
   \<and> probe_model (map example_tokenizer [''p'', ''p'', ''n'', ''n''])
         (map example_tokenizer [''p'', ''n'', ''p'', ''n''])
       = Inr [[[2, 0]], [[6, 0]], [[2, 0]], [[6, 0]]]
   \<and> probe_model [example_tokenizer ''n''] [example_tokenizer ''p''] = Inr [[[0, 0]]]
   \<and> probe_model [example_tokenizer ''n''] [example_tokenizer ''n''] = Inr [[[0, 0]]]"
proof -
  have n: "nth_err [a, b, c, d] 0 = Inr a" "nth_err [a, b, c, d] (Suc 0) = Inr b"
    "nth_err [a, b, c, d] 2 = Inr c" "nth_err [a, b, c, d] 3 = Inr d" for a b c d :: "real list"
    by (simp_all add: nth_err_def)
  have m: "margin [0, 0] 0 (Suc 0) = Inr 0" "margin [0, 0] (Suc 0) 0 = Inr 0"
    "margin [2, 0] 0 (Suc 0) = Inr 2" "margin [2, 0] (Suc 0) 0 = Inr (- 2)"
    "margin [6, 0] 0 (Suc 0) = Inr 6" "margin [6, 0] (Suc 0) 0 = Inr (- 6)"
    by (simp_all add: margin_def nth_err_def and_then_simps)
  have e: "nth_err (example_encode ''a'') 0 = Inr 0" "nth_err (example_encode ''b'') 0 = Inr 1"
    by (simp_all add: example_encode_def nth_err_def)
  have c: "measure_confusions example_tokenizer example_encode example_test probe_model = Inr 8"
    by (simp add: measure_confusions_def measure_confusions_grad_def example_test_def
        example_tokenizer_def probe_model_positive_first last_position_def n m e and_then_simps
        margin_log_softmax Let_def)
  have d: "measure_confusions example_tokenizer example_encode (swap_labels example_test)
      probe_model = Inr 0"
    by (simp add: measure_confusions_def measure_confusions_grad_def example_test_def
        swap_labels_def example_tokenizer_def probe_model_negative_first last_position_def n m e
        and_then_simps margin_log_softmax Let_def)
  have b: "probe_model (map example_tokenizer [''p'', ''p'', ''n'', ''n''])
         (map example_tokenizer [''p'', ''n'', ''p'', ''n''])
       = Inr [[[2, 0]], [[6, 0]], [[2, 0]], [[6, 0]]]"
    by (simp add: example_tokenizer_def probe_model_positive_first)
  have s: "probe_model [example_tokenizer ''n''] [example_tokenizer ''p''] = Inr [[[0, 0]]]"
    "probe_model [example_tokenizer ''n''] [example_tokenizer ''n''] = Inr [[[0, 0]]]"
    by (simp_all add: example_tokenizer_def probe_model_single_pairs)
  show ?thesis using c d b s by simp
qed

end
